theory Spec2Isabelle
  imports Main "HOL-Library.Word"
begin

section \<open>Data model\<close>

text \<open>
  The program is the current revision of \<^verbatim>\<open>gesichtool.cpp\<close> (the one built by
  \<^verbatim>\<open>CMakeLists.txt\<close>, which links dlib), together with \<^verbatim>\<open>semaphore_guard.hpp\<close>.
  A C++ \<^verbatim>\<open>int\<close> is a 32-bit word read as a signed number; a \<^verbatim>\<open>std::string\<close> and a
  \<^verbatim>\<open>std::filesystem::path\<close> are strings.
\<close>

type_synonym cint = "32 word"
type_synonym path = string

text \<open>\<^verbatim>\<open>cv::Size\<close> and \<^verbatim>\<open>cv::Rect\<close>.\<close>

record Size =
  size_width :: cint
  size_height :: cint

record Rect =
  rect_x :: cint
  rect_y :: cint
  rect_width :: cint
  rect_height :: cint

text \<open>
  What the program reads of a \<^verbatim>\<open>cv::Mat\<close>: \<^verbatim>\<open>cols\<close>, \<^verbatim>\<open>rows\<close> and \<^verbatim>\<open>empty()\<close>;
  \<open>mat_data\<close> stands for the pixels. A \<^verbatim>\<open>dlib::rectangle\<close> is read through
  \<^verbatim>\<open>left()\<close>, \<^verbatim>\<open>top()\<close>, \<^verbatim>\<open>width()\<close> and \<^verbatim>\<open>height()\<close>, each a \<^verbatim>\<open>long\<close>.
\<close>

record Mat =
  cols :: cint
  rows :: cint
  mat_empty :: bool
  mat_data :: string

record dlib_rectangle =
  dlib_left :: "64 word"
  dlib_top :: "64 word"
  dlib_width :: "64 word"
  dlib_height :: "64 word"

datatype Mode = DLIB | OPENCV

record Options =
  mode :: Mode
  images :: "path list"
  output_directory :: path
  output_size :: Size
  min_size :: "Size option"
  max_size :: "Size option"
  verbose :: bool
  min_neighbors :: cint

text \<open>The default member initialisers of \<^verbatim>\<open>struct Options\<close>.\<close>

definition default_options :: Options where
  "default_options =
     \<lparr>mode = DLIB, images = [], output_directory = [],
      output_size = \<lparr>size_width = 512, size_height = 512\<rparr>,
      min_size = Some \<lparr>size_width = 512, size_height = 512\<rparr>,
      max_size = None, verbose = False, min_neighbors = 3\<rparr>"

text \<open>
  The exceptions the program throws itself. \<^verbatim>\<open>ArgParseError\<close> derives from
  \<^verbatim>\<open>std::runtime_error\<close>; \<open>RuntimeError\<close> stands for an exception whose dynamic type is
  \<^verbatim>\<open>std::runtime_error\<close> itself. A function ends by returning, by throwing, or (for
  \<^verbatim>\<open>--help\<close>) by \<^verbatim>\<open>exit(EXIT_SUCCESS)\<close> after printing the help text.
\<close>

datatype exn = ArgParseError string | RuntimeError string

datatype stop = Throw exn | ExitSuccess

section \<open>Command line\<close>

text \<open>The text \<^verbatim>\<open>print_help\<close> prints, line by line.\<close>

definition print_help :: "string list" where
  "print_help =
    [''Usage: gesichtool [OPTIONS] IMAGE... -o OUTDIR'',
     ''Extract faces from image files'',
     '''',
     ''General Options:'',
     ''  -h, --help                Print this help'',
     ''  -v, --verbose             Be more verbose'',
     '''',
     ''Face Detect Mode:'',
     ''  --dlib                    Use dlib face detection (default)'',
     ''  --opencv                  Use OpenCV face detection'',
     ''Face Detect Options:'',
     ''  -n, --min-neighbors INT   Higher values reduce false positives (default: 3)'',
     ''  --min-size WxH            Minimum sizes for detected faces'',
     ''  --max-size WxH            Maximum sizes for detected faces'',
     '''',
     ''Output Options:'',
     ''  -o, --output DIR          Output directory'',
     ''  --size WxH         Rescale output images to WxH (default: 512x512)'']"

text \<open>
  The two C library parsers \<^verbatim>\<open>parse_args\<close> calls are parameters of the model:
  \<open>stoi L s\<close> is \<open>None\<close> when \<^verbatim>\<open>std::stoi(s)\<close> throws, and \<open>sscanf_dxd L s\<close> is \<open>None\<close>
  when \<^verbatim>\<open>sscanf(s, "%dx%d", &w, &h)\<close> does not return 2.
\<close>

record clib =
  stoi :: "string \<Rightarrow> cint option"
  sscanf_dxd :: "string \<Rightarrow> (cint \<times> cint) option"

definition to_size :: "clib \<Rightarrow> string \<Rightarrow> exn + Size" where
  "to_size L text =
     (case sscanf_dxd L text of
        None \<Rightarrow> Inl (RuntimeError (''failed to read cv::Size from '' @ text))
      | Some (w, h) \<Rightarrow> Inr \<lparr>size_width = w, size_height = h\<rparr>)"

text \<open>
  The loop of \<^verbatim>\<open>parse_args\<close> over \<^verbatim>\<open>argv[argv_idx..]\<close>: the list is the part of
  \<^verbatim>\<open>argv\<close> not read yet, so \<^verbatim>\<open>argv_idx += 1\<close> followed by the bounds test is a case
  split on the rest of the list.
\<close>

fun parse_loop :: "clib \<Rightarrow> Options \<Rightarrow> string list \<Rightarrow> stop + Options" where
  "parse_loop L opts [] = Inr opts"
| "parse_loop L opts (arg # rest) =
    (if arg \<noteq> [] \<and> hd arg = CHR ''-'' then
       if arg = ''-o'' \<or> arg = ''--option'' then
         (case rest of
            [] \<Rightarrow> Inl (Throw (ArgParseError (arg @ '' requires an argument'')))
          | v # rest' \<Rightarrow> parse_loop L (opts\<lparr>output_directory := v\<rparr>) rest')
       else if arg = ''-v'' \<or> arg = ''--verbose'' then
         parse_loop L (opts\<lparr>verbose := True\<rparr>) rest
       else if arg = ''-h'' \<or> arg = ''--help'' then
         Inl ExitSuccess
       else if arg = ''-n'' \<or> arg = ''--min-neighbors'' then
         (case rest of
            [] \<Rightarrow> Inl (Throw (ArgParseError (arg @ '' requires an argument'')))
          | v # rest' \<Rightarrow>
              (case stoi L v of
                 None \<Rightarrow> Inl (Throw (ArgParseError (''invalid value '' @ v @ '' for argument'')))
               | Some n \<Rightarrow> parse_loop L (opts\<lparr>min_neighbors := n\<rparr>) rest'))
       else if arg = ''--min-size'' then
         (case rest of
            [] \<Rightarrow> Inl (Throw (ArgParseError (arg @ '' requires an argument'')))
          | v # rest' \<Rightarrow>
              (case to_size L v of
                 Inl e \<Rightarrow> Inl (Throw e)
               | Inr s \<Rightarrow> parse_loop L (opts\<lparr>min_size := Some s\<rparr>) rest'))
       else if arg = ''--max-size'' then
         (case rest of
            [] \<Rightarrow> Inl (Throw (ArgParseError (arg @ '' requires an argument'')))
          | v # rest' \<Rightarrow>
              (case to_size L v of
                 Inl e \<Rightarrow> Inl (Throw e)
               | Inr s \<Rightarrow> parse_loop L (opts\<lparr>max_size := Some s\<rparr>) rest'))
       else if arg = ''--size'' then
         (case rest of
            [] \<Rightarrow> Inl (Throw (ArgParseError (arg @ '' requires an argument'')))
          | v # rest' \<Rightarrow>
              (case to_size L v of
                 Inl e \<Rightarrow> Inl (Throw e)
               | Inr s \<Rightarrow> parse_loop L (opts\<lparr>output_size := s\<rparr>) rest'))
       else if arg = ''--opencv'' then
         parse_loop L (opts\<lparr>mode := OPENCV\<rparr>) rest
       else if arg = ''--dlib'' then
         parse_loop L (opts\<lparr>mode := DLIB\<rparr>) rest
       else
         Inl (Throw (ArgParseError (''unknown argument '' @ arg @ '' given'')))
     else
       parse_loop L (opts\<lparr>images := images opts @ [arg]\<rparr>) rest)"

definition parse_args :: "clib \<Rightarrow> string list \<Rightarrow> stop + Options" where
  "parse_args L argv =
     (case parse_loop L default_options argv of
        Inl s \<Rightarrow> Inl s
      | Inr opts \<Rightarrow>
          if images opts = [] then
            Inl (Throw (ArgParseError ''no input images given''))
          else if output_directory opts = [] then
            Inl (Throw (ArgParseError ''no output directory given''))
          else Inr opts)"

text \<open>
  A reference C library, used to run the parser on concrete command lines: an optional
  run of white space, an optional sign and at least one decimal digit; \<^verbatim>\<open>std::stoi\<close>
  throws when no digit is found or the value does not fit an \<^verbatim>\<open>int\<close>.
\<close>

definition is_space :: "char \<Rightarrow> bool" where
  "is_space c = (c \<in> set [CHR '' '', CHR 0x09, CHR 0x0A, CHR 0x0B, CHR 0x0C, CHR 0x0D])"

definition is_digit :: "char \<Rightarrow> bool" where
  "is_digit c = (48 \<le> (of_char c :: nat) \<and> (of_char c :: nat) \<le> 57)"

definition digits_value :: "string \<Rightarrow> nat" where
  "digits_value ds = foldl (\<lambda>a c. 10 * a + (of_char c - 48)) 0 ds"

definition scan_int :: "string \<Rightarrow> (int \<times> string) option" where
  "scan_int s =
     (let s1 = dropWhile is_space s;
          neg = (s1 \<noteq> [] \<and> hd s1 = CHR ''-'');
          s2 = (if s1 \<noteq> [] \<and> (hd s1 = CHR ''-'' \<or> hd s1 = CHR ''+'') then tl s1 else s1);
          ds = takeWhile is_digit s2
      in if ds = [] then None
         else Some ((if neg then - int (digits_value ds) else int (digits_value ds)),
                    dropWhile is_digit s2))"

definition ref_stoi :: "string \<Rightarrow> cint option" where
  "ref_stoi s =
     (case scan_int s of
        None \<Rightarrow> None
      | Some (v, r) \<Rightarrow> if - (2 ^ 31) \<le> v \<and> v < 2 ^ 31 then Some (of_int v) else None)"

definition ref_sscanf_dxd :: "string \<Rightarrow> (cint \<times> cint) option" where
  "ref_sscanf_dxd s =
     (case scan_int s of
        None \<Rightarrow> None
      | Some (w, r) \<Rightarrow>
          if r \<noteq> [] \<and> hd r = CHR ''x'' then
            (case scan_int (tl r) of
               None \<Rightarrow> None
             | Some (h, r') \<Rightarrow> Some (of_int w, of_int h))
          else None)"

definition ref_clib :: clib where
  "ref_clib = \<lparr>stoi = ref_stoi, sscanf_dxd = ref_sscanf_dxd\<rparr>"

section \<open>Effects\<close>

text \<open>
  A thread's run is the list of its effects in program order. \<open>Stdout\<close> and \<open>Stderr\<close>
  carry the arguments of the \<^verbatim>\<open>fmt::print\<close> call; \<open>Imwrite f t\<close> is
  \<^verbatim>\<open>cv::imwrite(f, face_image)\<close>, where \<open>t\<close> records how \<^verbatim>\<open>face_image\<close> was made:
  the region \<open>thumb_roi\<close> of \<open>thumb_image\<close> (\<^verbatim>\<open>image(enlarged_face)\<close>), resized to
  \<open>thumb_size\<close> (\<^verbatim>\<open>cv::resize\<close>). \<open>Detect\<close> is a call of one of the two external
  detectors; \<open>Acquire\<close> and \<open>Release\<close> are the operations on the counting semaphore;
  \<open>Async i\<close> is \<^verbatim>\<open>std::async(std::launch::async, ...)\<close> for image \<open>i\<close> and
  \<open>FutureGet i\<close> is \<^verbatim>\<open>future.get()\<close> on its future.
\<close>

text \<open>
  What a task or \<^verbatim>\<open>run\<close> can end with: an exception the program throws itself, or the
  \<^verbatim>\<open>cv::Exception\<close> of an OpenCV call whose \<^verbatim>\<open>CV_Assert\<close> fails. The program makes
  three calls that can fail so: \<^verbatim>\<open>image(enlarged_face)\<close>, which asserts that the
  rectangle lies within the matrix; \<^verbatim>\<open>cv::resize\<close>, which asserts that neither the source
  nor the target size is empty; and \<^verbatim>\<open>cv::cvtColor\<close>, which asserts that the source is
  not empty.
\<close>

datatype cv_error = Roi_outside_matrix | Resize_of_empty | CvtColor_of_empty

datatype exception = Std_exception exn | Cv_exception cv_error

datatype message =
    Msg_running_dlib
  | Msg_running_opencv
  | Msg_processing path
  | Msg_waiting_for_results
  | Msg_detected nat
  | Msg_enlargement_rejected
  | Msg_extracting_face_at Rect cint cint
  | Msg_failed_to_read_image path
  | Msg_error exception
  | Msg_help

record thumbnail =
  thumb_image :: Mat
  thumb_roi :: Rect
  thumb_size :: Size

datatype detector = Dlib_frontal_face_detector | OpenCV_CascadeClassifier

datatype event =
    Acquire
  | Release
  | Stdout message
  | Stderr message
  | CreateDirectory path
  | Detect detector Mat
  | Imwrite path thumbnail
  | Async nat
  | FutureGet nat

text \<open>
  Everything the program asks of its environment (the file system as read, the machine,
  OpenCV and dlib) is a parameter: \<open>cascade_load w f\<close> is the result of
  \<^verbatim>\<open>face_cascade.load(f)\<close>, \<open>detectMultiScale w f image min_neighbors min_size max_size\<close> the
  rectangles \<^verbatim>\<open>detectMultiScale\<close> stores for the classifier loaded from \<open>f\<close> (scale factor
  1.1, flags 0), \<open>frontal_face_detector w gray\<close> the result of \<^verbatim>\<open>detector(dlibImage)\<close>.
\<close>

record world =
  hardware_concurrency :: nat
  findFile :: "string \<Rightarrow> path"
  cascade_load :: "path \<Rightarrow> bool"
  imread :: "path \<Rightarrow> Mat"
  cvtColor_BGR2GRAY :: "Mat \<Rightarrow> Mat"
  detectMultiScale :: "path \<Rightarrow> Mat \<Rightarrow> cint \<Rightarrow> Size \<Rightarrow> Size \<Rightarrow> Rect list"
  frontal_face_detector :: "Mat \<Rightarrow> dlib_rectangle list"

section \<open>File names\<close>

text \<open>
  \<^verbatim>\<open>fmt::format("{:03d}", v)\<close>: the decimal digits of \<open>v\<close>, padded with zeros to three
  characters, the sign counted.
\<close>

fun decimal :: "nat \<Rightarrow> string" where
  "decimal n =
     (if n < 10 then [char_of (48 + n)]
      else decimal (n div 10) @ [char_of (48 + n mod 10)])"

definition zero_pad :: "nat \<Rightarrow> string \<Rightarrow> string" where
  "zero_pad w s = replicate (w - length s) (CHR ''0'') @ s"

definition fmt_03d :: "cint \<Rightarrow> string" where
  "fmt_03d v =
     (if sint v < 0 then CHR ''-'' # zero_pad 2 (decimal (nat (- sint v)))
      else zero_pad 3 (decimal (nat (sint v))))"

text \<open>
  \<^verbatim>\<open>output_directory / name\<close> for a relative, non-empty \<open>name\<close>: a separator is put
  between the two unless the directory is empty or ends with one.
\<close>

definition path_append :: "path \<Rightarrow> string \<Rightarrow> path" where
  "path_append dir name =
     (if dir = [] \<or> last dir = CHR ''/'' then dir @ name else dir @ ''/'' @ name)"

definition face_filename :: "path \<Rightarrow> cint \<Rightarrow> cint \<Rightarrow> path" where
  "face_filename output_dir image_idx face_idx =
     path_append output_dir
       (''face'' @ fmt_03d image_idx @ ''-'' @ fmt_03d face_idx @ ''.jpg'')"

section \<open>Detection and extraction\<close>

definition detect_faces :: "world \<Rightarrow> path \<Rightarrow> Mat \<Rightarrow> Size option \<Rightarrow> Size option \<Rightarrow> cint \<Rightarrow> Rect list" where
  "detect_faces w face_cascade img min_sz max_sz min_nb =
     detectMultiScale w face_cascade img min_nb
       (case min_sz of None \<Rightarrow> \<lparr>size_width = 0, size_height = 0\<rparr> | Some s \<Rightarrow> s)
       (case max_sz of None \<Rightarrow> \<lparr>size_width = 0, size_height = 0\<rparr> | Some s \<Rightarrow> s)"

text \<open>
  The first half of the loop body of \<^verbatim>\<open>extract_faces\<close>: the rectangle is enlarged by
  \<open>inflation\<close> on each side, and the enlargement is given up when
  \<^verbatim>\<open>tl().x < 0 || tl().y < 0 || br().x >= image.cols || br().y >= image.rows\<close>, where
  \<^verbatim>\<open>tl()\<close> is \<open>(x, y)\<close> and \<^verbatim>\<open>br()\<close> is \<open>(x + width, y + height)\<close>.
\<close>

definition inflation :: cint where
  "inflation = 0"

definition inflate :: "Rect \<Rightarrow> Rect" where
  "inflate face =
     \<lparr>rect_x = rect_x face - inflation,
      rect_y = rect_y face - inflation,
      rect_width = rect_width face + inflation * 2,
      rect_height = rect_height face + inflation * 2\<rparr>"

definition enlargement_rejected :: "Mat \<Rightarrow> Rect \<Rightarrow> bool" where
  "enlargement_rejected img enlarged_face =
     (rect_x enlarged_face <s 0 \<or>
      rect_y enlarged_face <s 0 \<or>
      cols img \<le>s rect_x enlarged_face + rect_width enlarged_face \<or>
      rows img \<le>s rect_y enlarged_face + rect_height enlarged_face)"

definition adjust_face :: "Mat \<Rightarrow> Rect \<Rightarrow> Rect" where
  "adjust_face img face =
     (if enlargement_rejected img (inflate face) then face else inflate face)"

text \<open>
  The assertions of OpenCV: of \<^verbatim>\<open>Mat::operator()(const Rect& roi)\<close>,
  \<^verbatim>\<open>0 <= roi.x && 0 <= roi.width && roi.x + roi.width <= m.cols && 0 <= roi.y &&
  0 <= roi.height && roi.y + roi.height <= m.rows\<close>, and \<^verbatim>\<open>Size::empty()\<close>, which is
  \<^verbatim>\<open>width <= 0 || height <= 0\<close>.
\<close>

definition roi_inside :: "Mat \<Rightarrow> Rect \<Rightarrow> bool" where
  "roi_inside m roi =
     (0 \<le>s rect_x roi \<and> 0 \<le>s rect_width roi \<and> rect_x roi + rect_width roi \<le>s cols m \<and>
      0 \<le>s rect_y roi \<and> 0 \<le>s rect_height roi \<and> rect_y roi + rect_height roi \<le>s rows m)"

definition size_empty :: "cint \<Rightarrow> cint \<Rightarrow> bool" where
  "size_empty w h = (w \<le>s 0 \<or> h \<le>s 0)"

text \<open>
  The loop of \<^verbatim>\<open>extract_faces\<close> from \<^verbatim>\<open>face_idx\<close> on: its effects, and the exception that
  ends it, if any. The two messages are printed before the rectangle is cropped; the crop
  throws when the rectangle is not within the image, \<^verbatim>\<open>cv::resize\<close> throws when the
  cropped region or the output size is empty, and \<^verbatim>\<open>cv::imwrite\<close> is reached only
  after both.
\<close>

fun extract_loop ::
  "Mat \<Rightarrow> cint \<Rightarrow> path \<Rightarrow> Size \<Rightarrow> cint \<Rightarrow> Rect list \<Rightarrow> event list \<times> exception option" where
  "extract_loop img image_idx output_dir output_sz face_idx [] = ([], None)"
| "extract_loop img image_idx output_dir output_sz face_idx (face # faces) =
     (let enlarged_face = adjust_face img face;
          printed =
            (if enlargement_rejected img (inflate face) then [Stdout Msg_enlargement_rejected]
             else []) @
            [Stdout (Msg_extracting_face_at enlarged_face (cols img) (rows img))]
      in if \<not> roi_inside img enlarged_face then
           (printed, Some (Cv_exception Roi_outside_matrix))
         else if size_empty (rect_width enlarged_face) (rect_height enlarged_face) \<or>
                 size_empty (size_width output_sz) (size_height output_sz) then
           (printed, Some (Cv_exception Resize_of_empty))
         else
           let rest = extract_loop img image_idx output_dir output_sz (face_idx + 1) faces
           in (printed @
               [Imwrite (face_filename output_dir image_idx face_idx)
                  \<lparr>thumb_image = img, thumb_roi = enlarged_face, thumb_size = output_sz\<rparr>] @
               fst rest,
               snd rest))"

definition extract_faces ::
  "Mat \<Rightarrow> Rect list \<Rightarrow> cint \<Rightarrow> path \<Rightarrow> Size \<Rightarrow> event list \<times> exception option" where
  "extract_faces img faces image_idx output_dir output_sz =
     extract_loop img image_idx output_dir output_sz 0 faces"

section \<open>Tasks\<close>

text \<open>
  \<^verbatim>\<open>SemaphoreGuard guard(sem)\<close> is the first statement of each task: the constructor
  acquires, and the destructor releases when the task's body is left, by its end or by an
  exception. The body's result is the exception it throws, if any (the future stores it).
\<close>

definition SemaphoreGuard ::
  "event list \<times> exception option \<Rightarrow> event list \<times> exception option" where
  "SemaphoreGuard body = (Acquire # fst body @ [Release], snd body)"

definition to_cv_rect :: "dlib_rectangle \<Rightarrow> Rect" where
  "to_cv_rect rect =
     \<lparr>rect_x = ucast (dlib_left rect), rect_y = ucast (dlib_top rect),
      rect_width = ucast (dlib_width rect), rect_height = ucast (dlib_height rect)\<rparr>"

text \<open>
  The task \<^verbatim>\<open>run_dlib\<close> starts for \<^verbatim>\<open>images_idx\<close>. The image is not tested for being
  empty: \<^verbatim>\<open>cv::cvtColor\<close> throws on an empty image, before the detector is called.
\<close>

definition dlib_task :: "world \<Rightarrow> Options \<Rightarrow> nat \<Rightarrow> event list \<times> exception option" where
  "dlib_task w opts images_idx =
     SemaphoreGuard
       (let input_image_path = images opts ! images_idx;
            printed = (if verbose opts then [Stdout (Msg_processing input_image_path)] else []);
            img = imread w input_image_path
        in if mat_empty img then (printed, Some (Cv_exception CvtColor_of_empty))
           else
             let gray = cvtColor_BGR2GRAY w img;
                 dlib_faces = frontal_face_detector w gray;
                 faces = map to_cv_rect dlib_faces;
                 extracted = extract_faces img faces (of_nat images_idx) (output_directory opts)
                               (output_size opts)
             in (printed @ [Detect Dlib_frontal_face_detector gray] @ fst extracted,
                 snd extracted))"

text \<open>
  The task \<^verbatim>\<open>run_opencv\<close> starts for \<^verbatim>\<open>images_idx\<close>. The number of faces is printed
  after the extraction, so not when the extraction throws.
\<close>

definition opencv_task ::
  "world \<Rightarrow> Options \<Rightarrow> path \<Rightarrow> nat \<Rightarrow> event list \<times> exception option" where
  "opencv_task w opts cascade_file images_idx =
     SemaphoreGuard
       (let input_image_path = images opts ! images_idx in
        if \<not> cascade_load w cascade_file then
          ([], Some (Std_exception (RuntimeError (''failed to load '' @ cascade_file))))
        else
          let img = imread w input_image_path in
          if mat_empty img then
            ([Stderr (Msg_failed_to_read_image input_image_path)], None)
          else
            let faces = detect_faces w cascade_file img (min_size opts) (max_size opts)
                          (min_neighbors opts);
                extracted = extract_faces img faces (of_nat images_idx) (output_directory opts)
                              (output_size opts)
            in case snd extracted of
                 Some e \<Rightarrow> ([Detect OpenCV_CascadeClassifier img] @ fst extracted, Some e)
               | None \<Rightarrow>
                   ([Detect OpenCV_CascadeClassifier img] @ fst extracted @
                    [Stdout (Msg_detected (length faces))],
                    None))"

section \<open>The main thread\<close>

text \<open>
  \<^verbatim>\<open>for (auto& future : futures) future.get();\<close> over the tasks' results, from future
  \<open>i\<close> on: \<^verbatim>\<open>get()\<close> rethrows the exception the task ended with, which ends the loop.
\<close>

fun join_futures :: "nat \<Rightarrow> exception option list \<Rightarrow> event list \<times> exception option" where
  "join_futures i [] = ([], None)"
| "join_futures i (None # results) =
     (FutureGet i # fst (join_futures (Suc i) results), snd (join_futures (Suc i) results))"
| "join_futures i (Some e # results) = ([FutureGet i], Some e)"

text \<open>
  A run of \<^verbatim>\<open>run\<close>: the main thread's effects, the effects of each task, and the
  exception \<^verbatim>\<open>run\<close> ends with, if any.
\<close>

record run_result =
  main_thread :: "event list"
  task_threads :: "event list list"
  thrown :: "exception option"

definition run_dlib :: "world \<Rightarrow> Options \<Rightarrow> run_result" where
  "run_dlib w opts =
     (let results = map (dlib_task w opts) [0..<length (images opts)];
          launches = map Async [0..<length (images opts)];
          joined = join_futures 0 (map snd results)
      in \<lparr>main_thread =
            [Stdout Msg_running_dlib] @ launches @ [Stdout Msg_waiting_for_results] @ fst joined,
          task_threads = map fst results,
          thrown = snd joined\<rparr>)"

definition run_opencv :: "world \<Rightarrow> Options \<Rightarrow> run_result" where
  "run_opencv w opts =
     (let cascade_file = findFile w ''haarcascades/haarcascade_frontalface_default.xml'';
          results = map (opencv_task w opts cascade_file) [0..<length (images opts)];
          launches =
            concat (map (\<lambda>images_idx.
                (if verbose opts then [Stdout (Msg_processing (images opts ! images_idx))] else []) @
                [Async images_idx])
              [0..<length (images opts)]);
          joined = join_futures 0 (map snd results)
      in \<lparr>main_thread =
            [Stdout Msg_running_opencv] @ launches @ [Stdout Msg_waiting_for_results] @ fst joined,
          task_threads = map fst results,
          thrown = snd joined\<rparr>)"

definition run :: "world \<Rightarrow> Options \<Rightarrow> run_result" where
  "run w opts =
     (let r = (case mode opts of OPENCV \<Rightarrow> run_opencv w opts | DLIB \<Rightarrow> run_dlib w opts)
      in r\<lparr>main_thread := CreateDirectory (output_directory opts) # main_thread r\<rparr>)"

text \<open>
  \<^verbatim>\<open>main\<close>: what \<^verbatim>\<open>parse_args\<close> or \<^verbatim>\<open>run\<close> throws is caught as a
  \<^verbatim>\<open>std::exception\<close> and printed to the error stream; the help option prints the help
  text and exits.
\<close>

definition main :: "clib \<Rightarrow> world \<Rightarrow> string list \<Rightarrow> run_result" where
  "main L w args =
     (case parse_args L args of
        Inl ExitSuccess \<Rightarrow> \<lparr>main_thread = [Stdout Msg_help], task_threads = [], thrown = None\<rparr>
      | Inl (Throw e) \<Rightarrow>
          \<lparr>main_thread = [Stderr (Msg_error (Std_exception e))], task_threads = [],
           thrown = None\<rparr>
      | Inr opts \<Rightarrow>
          (let r = run w opts
           in case thrown r of
                None \<Rightarrow> r
              | Some e \<Rightarrow>
                  r\<lparr>main_thread := main_thread r @ [Stderr (Msg_error e)], thrown := None\<rparr>))"

text \<open>The effects of the task \<^verbatim>\<open>run\<close> starts for image \<open>i\<close>.\<close>

definition task_of :: "world \<Rightarrow> Options \<Rightarrow> nat \<Rightarrow> event list" where
  "task_of w opts i =
     (case mode opts of
        OPENCV \<Rightarrow>
          fst (opencv_task w opts
                 (findFile w ''haarcascades/haarcascade_frontalface_default.xml'') i)
      | DLIB \<Rightarrow> fst (dlib_task w opts i))"

text \<open>What a thread's effects say about files, detectors and the error stream.\<close>

fun imwrites :: "event list \<Rightarrow> (path \<times> thumbnail) list" where
  "imwrites [] = []"
| "imwrites (Imwrite f t # es) = (f, t) # imwrites es"
| "imwrites (e # es) = imwrites es"

fun detections :: "event list \<Rightarrow> detector list" where
  "detections [] = []"
| "detections (Detect d m # es) = d # detections es"
| "detections (e # es) = detections es"

fun stderr_messages :: "event list \<Rightarrow> message list" where
  "stderr_messages [] = []"
| "stderr_messages (Stderr m # es) = m # stderr_messages es"
| "stderr_messages (e # es) = stderr_messages es"

section \<open>Threads and the semaphore\<close>

text \<open>
  The threads of a run, interleaved. The state holds the \<open>Options\<close> the threads share, the
  counter of the semaphore, what the main thread has still to do, and for each task
  \<open>None\<close> before \<^verbatim>\<open>std::async\<close> has started it and afterwards what it has still to do.
  A thread takes one step at a time: \<^verbatim>\<open>acquire()\<close> needs a positive counter and
  decrements it, \<^verbatim>\<open>release()\<close> increments it, \<^verbatim>\<open>future.get()\<close> needs the task to have
  ended. A task's effects are computed from the shared \<open>Options\<close> when it is started.
\<close>

record state =
  st_opts :: Options
  st_sem :: nat
  st_main :: "event list"
  st_tasks :: "event list option list"

datatype thread = Main | Task nat

definition initial :: "world \<Rightarrow> Options \<Rightarrow> state" where
  "initial w opts =
     \<lparr>st_opts = opts, st_sem = hardware_concurrency w,
      st_main = main_thread (run w opts),
      st_tasks = replicate (length (images opts)) None\<rparr>"

fun fire :: "world \<Rightarrow> state \<Rightarrow> thread \<Rightarrow> state option" where
  "fire w s Main =
     (case st_main s of
        [] \<Rightarrow> None
      | Async i # rest \<Rightarrow>
          Some (s\<lparr>st_main := rest,
                  st_tasks := (st_tasks s)[i := Some (task_of w (st_opts s) i)]\<rparr>)
      | FutureGet i # rest \<Rightarrow>
          if i < length (st_tasks s) \<and> st_tasks s ! i = Some [] then Some (s\<lparr>st_main := rest\<rparr>)
          else None
      | e # rest \<Rightarrow> Some (s\<lparr>st_main := rest\<rparr>))"
| "fire w s (Task i) =
     (if i < length (st_tasks s) then
        (case st_tasks s ! i of
           None \<Rightarrow> None
         | Some [] \<Rightarrow> None
         | Some (Acquire # rest) \<Rightarrow>
             if 0 < st_sem s then
               Some (s\<lparr>st_sem := st_sem s - 1, st_tasks := (st_tasks s)[i := Some rest]\<rparr>)
             else None
         | Some (Release # rest) \<Rightarrow>
             Some (s\<lparr>st_sem := st_sem s + 1, st_tasks := (st_tasks s)[i := Some rest]\<rparr>)
         | Some (e # rest) \<Rightarrow> Some (s\<lparr>st_tasks := (st_tasks s)[i := Some rest]\<rparr>))
      else None)"

text \<open>A schedule is the list of the threads that step, in order; all of them must be able to.\<close>

fun exec :: "world \<Rightarrow> state \<Rightarrow> thread list \<Rightarrow> state option" where
  "exec w s [] = Some s"
| "exec w s (t # ts) = (case fire w s t of None \<Rightarrow> None | Some s' \<Rightarrow> exec w s' ts)"

text \<open>A task holds a slot when it has acquired and not yet released.\<close>

definition holds_slot :: "event list option \<Rightarrow> bool" where
  "holds_slot t = (case t of None \<Rightarrow> False | Some r \<Rightarrow> Acquire \<notin> set r \<and> Release \<in> set r)"

definition holders :: "state \<Rightarrow> nat" where
  "holders s = length (filter holds_slot (st_tasks s))"

text \<open>
  The semaphore operations a task has still to do. Of a task that is guarded by a
  \<open>SemaphoreGuard\<close> they are an acquire and a release, a release, or nothing.
\<close>

definition sem_ops :: "event list \<Rightarrow> event list" where
  "sem_ops r = filter (\<lambda>e. e = Acquire \<or> e = Release) r"

definition guarded :: "event list option \<Rightarrow> bool" where
  "guarded t =
     (case t of
        None \<Rightarrow> True
      | Some r \<Rightarrow> sem_ops r = [Acquire, Release] \<or> sem_ops r = [Release] \<or> sem_ops r = [])"

text \<open>
  The main thread joins after it has launched: from the first \<^verbatim>\<open>future.get()\<close> on, it
  does nothing else.
\<close>

fun is_get :: "event \<Rightarrow> bool" where
  "is_get (FutureGet i) = True"
| "is_get e = False"


text \<open>
  Two invariants of the interleaved run: every task is guarded and the counter of the
  semaphore plus the number of tasks holding a slot is at most the initial count; and a
  task whose \<^verbatim>\<open>future.get()\<close> the main thread has passed has ended.
\<close>

definition slots_inv :: "world \<Rightarrow> state \<Rightarrow> bool" where
  "slots_inv w s =
     (list_all guarded (st_tasks s) \<and> st_sem s + holders s \<le> hardware_concurrency w)"


section \<open>The command line, item by item\<close>

text \<open>
  The command line as a reader of the help text understands it: read from left to right,
  an option that takes a value forms one item with the token that follows it, whatever
  that token is; it is \<open>Dangling\<close> when nothing follows. \<open>Unknown\<close> is a token that
  starts with \<open>-\<close> and is no option of the program.
\<close>

datatype item =
  Positional string | Flag string | Help | Valued string string | Dangling string | Unknown string

definition value_options :: "string list" where
  "value_options =
     [''-o'', ''--option'', ''-n'', ''--min-neighbors'', ''--min-size'', ''--max-size'', ''--size'']"

definition flag_options :: "string list" where
  "flag_options = [''-v'', ''--verbose'', ''--opencv'', ''--dlib'']"

fun items :: "string list \<Rightarrow> item list" where
  "items [] = []"
| "items (a # rest) =
    (if a \<noteq> [] \<and> hd a = CHR ''-'' then
       if a \<in> set value_options then
         (case rest of [] \<Rightarrow> [Dangling a] | v # rest' \<Rightarrow> Valued a v # items rest')
       else if a \<in> set flag_options then Flag a # items rest
       else if a = ''-h'' \<or> a = ''--help'' then Help # items rest
       else Unknown a # items rest
     else Positional a # items rest)"

text \<open>The four ways \<^verbatim>\<open>parse_args\<close> can end.\<close>

datatype outcome = Returns_Options | Throws_ArgParseError | Throws_runtime_error | Exits

fun outcome_of :: "stop + Options \<Rightarrow> outcome" where
  "outcome_of (Inr opts) = Returns_Options"
| "outcome_of (Inl (Throw (ArgParseError m))) = Throws_ArgParseError"
| "outcome_of (Inl (Throw (RuntimeError m))) = Throws_runtime_error"
| "outcome_of (Inl ExitSuccess) = Exits"

text \<open>
  The outcome expected of a command line, stated on its items: the first item that stops
  the parser decides (the help option, an option without its value, an unknown option, a
  number of neighbours or a size that does not parse); when there is none, there must be
  an image path and a non-empty output directory.
\<close>

fun item_stop :: "clib \<Rightarrow> item \<Rightarrow> outcome option" where
  "item_stop L Help = Some Exits"
| "item_stop L (Dangling a) = Some Throws_ArgParseError"
| "item_stop L (Unknown a) = Some Throws_ArgParseError"
| "item_stop L (Valued a v) =
     (if (a = ''-n'' \<or> a = ''--min-neighbors'') \<and> stoi L v = None then Some Throws_ArgParseError
      else if (a = ''--min-size'' \<or> a = ''--max-size'' \<or> a = ''--size'') \<and> sscanf_dxd L v = None
        then Some Throws_runtime_error
      else None)"
| "item_stop L (Positional a) = None"
| "item_stop L (Flag a) = None"

fun first_stop :: "clib \<Rightarrow> item list \<Rightarrow> outcome option" where
  "first_stop L [] = None"
| "first_stop L (i # is) = (case item_stop L i of Some k \<Rightarrow> Some k | None \<Rightarrow> first_stop L is)"

fun positionals :: "item list \<Rightarrow> string list" where
  "positionals [] = []"
| "positionals (Positional a # is) = a # positionals is"
| "positionals (i # is) = positionals is"

text \<open>The value of the last \<open>-o\<close> or \<open>--option\<close> item, and the mode the last mode flag selects.\<close>

fun last_outdir :: "path \<Rightarrow> item list \<Rightarrow> path" where
  "last_outdir d [] = d"
| "last_outdir d (Valued a v # is) = last_outdir (if a = ''-o'' \<or> a = ''--option'' then v else d) is"
| "last_outdir d (i # is) = last_outdir d is"

fun last_mode :: "Mode \<Rightarrow> item list \<Rightarrow> Mode" where
  "last_mode m [] = m"
| "last_mode m (Flag a # is) =
     last_mode (if a = ''--opencv'' then OPENCV else if a = ''--dlib'' then DLIB else m) is"
| "last_mode m (i # is) = last_mode m is"

definition expected_outcome :: "clib \<Rightarrow> string list \<Rightarrow> outcome" where
  "expected_outcome L argv =
     (case first_stop L (items argv) of
        Some k \<Rightarrow> k
      | None \<Rightarrow>
          if positionals (items argv) = [] then Throws_ArgParseError
          else if last_outdir [] (items argv) = [] then Throws_ArgParseError
          else Returns_Options)"

text \<open>What \<^verbatim>\<open>parse_args\<close> does with one item, and with a list of items.\<close>

fun step_item :: "clib \<Rightarrow> Options \<Rightarrow> item \<Rightarrow> stop + Options" where
  "step_item L opts (Positional a) = Inr (opts\<lparr>images := images opts @ [a]\<rparr>)"
| "step_item L opts (Flag a) =
     Inr (if a = ''-v'' \<or> a = ''--verbose'' then opts\<lparr>verbose := True\<rparr>
          else if a = ''--opencv'' then opts\<lparr>mode := OPENCV\<rparr>
          else if a = ''--dlib'' then opts\<lparr>mode := DLIB\<rparr>
          else opts)"
| "step_item L opts Help = Inl ExitSuccess"
| "step_item L opts (Dangling a) = Inl (Throw (ArgParseError (a @ '' requires an argument'')))"
| "step_item L opts (Unknown a) = Inl (Throw (ArgParseError (''unknown argument '' @ a @ '' given'')))"
| "step_item L opts (Valued a v) =
     (if a = ''-o'' \<or> a = ''--option'' then Inr (opts\<lparr>output_directory := v\<rparr>)
      else if a = ''-n'' \<or> a = ''--min-neighbors'' then
        (case stoi L v of
           None \<Rightarrow> Inl (Throw (ArgParseError (''invalid value '' @ v @ '' for argument'')))
         | Some n \<Rightarrow> Inr (opts\<lparr>min_neighbors := n\<rparr>))
      else if a = ''--min-size'' \<or> a = ''--max-size'' \<or> a = ''--size'' then
        (case to_size L v of
           Inl e \<Rightarrow> Inl (Throw e)
         | Inr s \<Rightarrow>
             Inr (if a = ''--min-size'' then opts\<lparr>min_size := Some s\<rparr>
                  else if a = ''--max-size'' then opts\<lparr>max_size := Some s\<rparr>
                  else opts\<lparr>output_size := s\<rparr>))
      else Inr opts)"

fun run_items :: "clib \<Rightarrow> Options \<Rightarrow> item list \<Rightarrow> stop + Options" where
  "run_items L opts [] = Inr opts"
| "run_items L opts (i # is) =
     (case step_item L opts i of Inl s \<Rightarrow> Inl s | Inr opts' \<Rightarrow> run_items L opts' is)"

section \<open>The thumbnails expected of an image\<close>

text \<open>
  For the image of index \<open>i\<close> and the rectangles \<open>faces\<close> in the order the detector
  returned them: file \<open>j\<close> is named \<open>face{i:03d}-{j:03d}.jpg\<close> in the output directory and
  holds rectangle \<open>j\<close> of the image, resized to the output size.
\<close>

definition thumbnails :: "Mat \<Rightarrow> Rect list \<Rightarrow> nat \<Rightarrow> path \<Rightarrow> Size \<Rightarrow> (path \<times> thumbnail) list" where
  "thumbnails img faces i dir sz =
     map (\<lambda>j. (face_filename dir (of_nat i) (of_nat j),
               \<lparr>thumb_image = img, thumb_roi = faces ! j, thumb_size = sz\<rparr>))
       [0..<length faces]"

text \<open>
  A rectangle the loop can crop and resize: it lies within the image, and neither it nor
  the output size is empty.
\<close>

definition croppable :: "Mat \<Rightarrow> Size \<Rightarrow> Rect \<Rightarrow> bool" where
  "croppable img sz face =
     (roi_inside img face \<and> \<not> size_empty (rect_width face) (rect_height face) \<and>
      \<not> size_empty (size_width sz) (size_height sz))"

section \<open>An example environment\<close>

text \<open>
  A machine with two hardware threads on which every file but \<open>missing.jpg\<close> decodes to a
  640 by 480 image; the cascade classifier finds two faces in an image, the second one
  touching the right edge, and the dlib detector one face.
\<close>

definition example_world :: world where
  "example_world =
     \<lparr>hardware_concurrency = 2,
      findFile = (\<lambda>name. ''/usr/share/opencv4/'' @ name),
      cascade_load = (\<lambda>f. True),
      imread = (\<lambda>p. if p = ''missing.jpg''
                     then \<lparr>cols = 0, rows = 0, mat_empty = True, mat_data = []\<rparr>
                     else \<lparr>cols = 640, rows = 480, mat_empty = False, mat_data = p\<rparr>),
      cvtColor_BGR2GRAY = (\<lambda>m. m),
      detectMultiScale = (\<lambda>f m n lo hi.
         [\<lparr>rect_x = 10, rect_y = 20, rect_width = 100, rect_height = 100\<rparr>,
          \<lparr>rect_x = 540, rect_y = 300, rect_width = 100, rect_height = 120\<rparr>]),
      frontal_face_detector = (\<lambda>m.
         if mat_empty m then []
         else [\<lparr>dlib_left = 10, dlib_top = 20, dlib_width = 100, dlib_height = 100\<rparr>])\<rparr>"

definition example_options :: Options where
  "example_options =
     default_options\<lparr>images := [''a.jpg'', ''missing.jpg''], output_directory := ''out''\<rparr>"


section \<open>Properties of the command line parser\<close>

lemma parse_loop_positional:
  assumes "\<not> (arg \<noteq> [] \<and> hd arg = CHR ''-'')"
  shows "parse_loop L opts (arg # rest) = parse_loop L (opts\<lparr>images := images opts @ [arg]\<rparr>) rest"
  by (subst parse_loop.simps(2)) (rule if_not_P[OF assms])

lemma parse_loop_unknown:
  assumes "arg \<noteq> [] \<and> hd arg = CHR ''-''"
    and "arg \<notin> set [''-o'', ''--option'', ''-v'', ''--verbose'', ''-h'', ''--help'', ''-n'',
           ''--min-neighbors'', ''--min-size'', ''--max-size'', ''--size'', ''--opencv'', ''--dlib'']"
  shows "parse_loop L opts (arg # rest) = Inl (Throw (ArgParseError (''unknown argument '' @ arg @ '' given'')))"
  using assms by simp

lemma parse_loop_flag:
  "parse_loop L opts (''-v'' # rest) = parse_loop L (opts\<lparr>verbose := True\<rparr>) rest"
  "parse_loop L opts (''--verbose'' # rest) = parse_loop L (opts\<lparr>verbose := True\<rparr>) rest"
  "parse_loop L opts (''--opencv'' # rest) = parse_loop L (opts\<lparr>mode := OPENCV\<rparr>) rest"
  "parse_loop L opts (''--dlib'' # rest) = parse_loop L (opts\<lparr>mode := DLIB\<rparr>) rest"
  "parse_loop L opts (''-h'' # rest) = Inl ExitSuccess"
  "parse_loop L opts (''--help'' # rest) = Inl ExitSuccess"
  by simp_all

lemma parse_loop_dangling:
  "a \<in> set [''-o'', ''--option'', ''-n'', ''--min-neighbors'', ''--min-size'', ''--max-size'', ''--size'']
   \<Longrightarrow> parse_loop L opts [a] = Inl (Throw (ArgParseError (a @ '' requires an argument'')))"
  by auto

lemma parse_loop_valued:
  "parse_loop L opts (''-o'' # v # rest) = parse_loop L (opts\<lparr>output_directory := v\<rparr>) rest"
  "parse_loop L opts (''--option'' # v # rest) = parse_loop L (opts\<lparr>output_directory := v\<rparr>) rest"
  "parse_loop L opts (''-n'' # v # rest) =
     (case stoi L v of
        None \<Rightarrow> Inl (Throw (ArgParseError (''invalid value '' @ v @ '' for argument'')))
      | Some n \<Rightarrow> parse_loop L (opts\<lparr>min_neighbors := n\<rparr>) rest)"
  "parse_loop L opts (''--min-neighbors'' # v # rest) =
     (case stoi L v of
        None \<Rightarrow> Inl (Throw (ArgParseError (''invalid value '' @ v @ '' for argument'')))
      | Some n \<Rightarrow> parse_loop L (opts\<lparr>min_neighbors := n\<rparr>) rest)"
  "parse_loop L opts (''--min-size'' # v # rest) =
     (case to_size L v of Inl e \<Rightarrow> Inl (Throw e)
      | Inr s \<Rightarrow> parse_loop L (opts\<lparr>min_size := Some s\<rparr>) rest)"
  "parse_loop L opts (''--max-size'' # v # rest) =
     (case to_size L v of Inl e \<Rightarrow> Inl (Throw e)
      | Inr s \<Rightarrow> parse_loop L (opts\<lparr>max_size := Some s\<rparr>) rest)"
  "parse_loop L opts (''--size'' # v # rest) =
     (case to_size L v of Inl e \<Rightarrow> Inl (Throw e)
      | Inr s \<Rightarrow> parse_loop L (opts\<lparr>output_size := s\<rparr>) rest)"
  by simp_all

lemma items_positional:
  assumes "\<not> (arg \<noteq> [] \<and> hd arg = CHR ''-'')"
  shows "items (arg # rest) = Positional arg # items rest"
  by (subst items.simps(2)) (rule if_not_P[OF assms])

lemma value_options_dash: "a \<in> set value_options \<Longrightarrow> a \<noteq> [] \<and> hd a = CHR ''-''"
  by (auto simp: value_options_def)

lemma flag_options_dash:
  "a \<in> set flag_options \<Longrightarrow> a \<noteq> [] \<and> hd a = CHR ''-'' \<and> a \<notin> set value_options"
  by (auto simp: value_options_def flag_options_def)

lemma items_valued:
  "a \<in> set value_options \<Longrightarrow> items [a] = [Dangling a]"
  "a \<in> set value_options \<Longrightarrow> items (a # v # rest) = Valued a v # items rest"
  by (simp_all add: value_options_dash)

lemma items_flag:
  "a \<in> set flag_options \<Longrightarrow> items (a # rest) = Flag a # items rest"
  by (simp add: flag_options_dash)

lemma items_help:
  "items (''-h'' # rest) = Help # items rest"
  "items (''--help'' # rest) = Help # items rest"
  by (simp_all add: value_options_def flag_options_def)

lemma items_unknown:
  assumes "arg \<noteq> [] \<and> hd arg = CHR ''-''"
    and "arg \<notin> set (value_options @ flag_options @ [''-h'', ''--help''])"
  shows "items (arg # rest) = Unknown arg # items rest"
  using assms by simp

lemma parse_loop_valued_step:
  assumes "a \<in> set value_options"
  shows "parse_loop L opts (a # v # rest) =
           (case step_item L opts (Valued a v) of Inl s \<Rightarrow> Inl s
            | Inr opts' \<Rightarrow> parse_loop L opts' rest)"
proof -
  from assms have "a = ''-o'' \<or> a = ''--option'' \<or> a = ''-n'' \<or> a = ''--min-neighbors''
      \<or> a = ''--min-size'' \<or> a = ''--max-size'' \<or> a = ''--size''"
    by (simp add: value_options_def)
  then show ?thesis
    by (elim disjE)
       (simp_all add: parse_loop_valued del: parse_loop.simps split: option.splits sum.splits)
qed

lemma parse_loop_flag_step:
  assumes "a \<in> set flag_options"
  shows "parse_loop L opts (a # rest) =
           (case step_item L opts (Flag a) of Inl s \<Rightarrow> Inl s
            | Inr opts' \<Rightarrow> parse_loop L opts' rest)"
proof -
  from assms have "a = ''-v'' \<or> a = ''--verbose'' \<or> a = ''--opencv'' \<or> a = ''--dlib''"
    by (simp add: flag_options_def)
  then show ?thesis
    by (elim disjE) (simp_all add: parse_loop_flag del: parse_loop.simps)
qed

lemma parse_loop_items: "parse_loop L opts args = run_items L opts (items args)"
proof (induction args arbitrary: opts rule: length_induct)
  case (1 args)
  show ?case
  proof (cases args)
    case Nil
    then show ?thesis by simp
  next
    case (Cons arg rest)
    have IH1: "\<And>opts'. parse_loop L opts' rest = run_items L opts' (items rest)"
      using 1 Cons by simp
    have IH2: "\<And>opts' v rest'. rest = v # rest' \<Longrightarrow>
        parse_loop L opts' rest' = run_items L opts' (items rest')"
      using 1 Cons by simp
    consider (valued) "arg \<in> set value_options"
      | (flag) "arg \<in> set flag_options"
      | (hlp) "arg = ''-h'' \<or> arg = ''--help''"
      | (pos) "\<not> (arg \<noteq> [] \<and> hd arg = CHR ''-'')"
      | (unk) "arg \<noteq> [] \<and> hd arg = CHR ''-''"
          "arg \<notin> set (value_options @ flag_options @ [''-h'', ''--help''])"
      by auto
    then show ?thesis
    proof cases
      case valued
      show ?thesis
      proof (cases rest)
        case Nil
        have "parse_loop L opts [arg] = Inl (Throw (ArgParseError (arg @ '' requires an argument'')))"
          using valued by (intro parse_loop_dangling) (simp add: value_options_def)
        then show ?thesis
          unfolding \<open>args = arg # rest\<close> Nil by (simp only: items_valued(1)[OF valued] run_items.simps step_item.simps sum.case)
      next
        case (Cons v rest')
        have *: "items (arg # v # rest') = Valued arg v # items rest'"
          by (rule items_valued(2)[OF valued])
        have "parse_loop L opts (arg # v # rest') =
               (case step_item L opts (Valued arg v) of Inl s \<Rightarrow> Inl s
                | Inr opts' \<Rightarrow> parse_loop L opts' rest')"
          by (rule parse_loop_valued_step[OF valued])
        then show ?thesis
          unfolding \<open>args = arg # rest\<close> Cons *
          by (simp add: IH2[OF Cons] del: parse_loop.simps step_item.simps split: sum.splits)
      qed
    next
      case flag
      have "parse_loop L opts (arg # rest) =
               (case step_item L opts (Flag arg) of Inl s \<Rightarrow> Inl s
                | Inr opts' \<Rightarrow> parse_loop L opts' rest)"
        by (rule parse_loop_flag_step[OF flag])
      then show ?thesis
        unfolding Cons items_flag[OF flag]
        by (simp add: IH1 del: parse_loop.simps step_item.simps split: sum.splits)
    next
      case hlp
      then show ?thesis
        unfolding Cons by (auto simp: parse_loop_flag items_help simp del: parse_loop.simps items.simps)
    next
      case pos
      show ?thesis
        unfolding Cons parse_loop_positional[OF pos] items_positional[OF pos]
        by (simp add: IH1)
    next
      case unk
      have "parse_loop L opts (arg # rest) = Inl (Throw (ArgParseError (''unknown argument '' @ arg @ '' given'')))"
        using unk by (intro parse_loop_unknown) (simp_all add: value_options_def flag_options_def)
      then show ?thesis
        unfolding Cons items_unknown[OF unk] by simp
    qed
  qed
qed

lemma to_size_Inl:
  "to_size L v = Inl e \<Longrightarrow>
     sscanf_dxd L v = None \<and> e = RuntimeError (''failed to read cv::Size from '' @ v)"
  by (auto simp: to_size_def split: option.splits)

lemma to_size_Inr: "to_size L v = Inr s \<Longrightarrow> sscanf_dxd L v \<noteq> None"
  by (auto simp: to_size_def split: option.splits)

lemma value_cases:
  obtains "a = ''-o''" | "a = ''--option''" | "a = ''-n''" | "a = ''--min-neighbors''"
    | "a = ''--min-size''" | "a = ''--max-size''" | "a = ''--size''"
    | "a \<notin> set value_options"
  unfolding value_options_def by auto

lemma step_item_stop:
  assumes "step_item L opts i = Inl s"
  shows "item_stop L i = Some (outcome_of (Inl s))"
proof (cases i)
  case (Valued a v)
  show ?thesis
    using assms unfolding Valued
    by (cases a rule: value_cases)
       (auto simp: value_options_def split: option.splits sum.splits
          dest: to_size_Inl to_size_Inr)
qed (use assms in auto)

lemma step_item_ok:
  assumes "step_item L opts i = Inr opts'"
  shows "item_stop L i = None"
proof (cases i)
  case (Valued a v)
  show ?thesis
    using assms unfolding Valued
    by (cases a rule: value_cases)
       (auto simp: value_options_def split: option.splits sum.splits
          dest: to_size_Inl to_size_Inr)
qed (use assms in auto)

lemma step_item_fields:
  assumes "step_item L opts i = Inr opts'"
  shows "images opts' = images opts @ positionals [i]"
    and "output_directory opts' = last_outdir (output_directory opts) [i]"
    and "mode opts' = last_mode (mode opts) [i]"
proof -
  have "images opts' = images opts @ positionals [i] \<and>
        output_directory opts' = last_outdir (output_directory opts) [i] \<and>
        mode opts' = last_mode (mode opts) [i]"
  proof (cases i)
    case (Valued a v)
    show ?thesis
      using assms unfolding Valued
      by (cases a rule: value_cases)
         (auto simp: value_options_def split: option.splits sum.splits)
  qed (use assms in auto)
  then show "images opts' = images opts @ positionals [i]"
    and "output_directory opts' = last_outdir (output_directory opts) [i]"
    and "mode opts' = last_mode (mode opts) [i]"
    by simp_all
qed

lemma run_items_stop:
  "run_items L opts is = Inl s \<Longrightarrow> first_stop L is = Some (outcome_of (Inl s))"
proof (induction "is" arbitrary: opts)
  case Nil
  then show ?case by simp
next
  case (Cons i "is")
  show ?case
  proof (cases "step_item L opts i")
    case (Inl s')
    with Cons.prems have "s' = s" by simp
    with Inl show ?thesis by (simp add: step_item_stop)
  next
    case (Inr opts')
    with Cons.prems have "run_items L opts' is = Inl s" by simp
    from Cons.IH[OF this] step_item_ok[OF Inr] show ?thesis by simp
  qed
qed

lemma positionals_Cons: "positionals (i # is) = positionals [i] @ positionals is"
  by (cases i) simp_all

lemma last_outdir_Cons: "last_outdir d (i # is) = last_outdir (last_outdir d [i]) is"
  by (cases i) simp_all

lemma last_mode_Cons: "last_mode m (i # is) = last_mode (last_mode m [i]) is"
  by (cases i) simp_all

lemma run_items_ok:
  assumes "run_items L opts is = Inr opts'"
  shows "first_stop L is = None"
    and "images opts' = images opts @ positionals is"
    and "output_directory opts' = last_outdir (output_directory opts) is"
    and "mode opts' = last_mode (mode opts) is"
proof -
  have "first_stop L is = None \<and> images opts' = images opts @ positionals is \<and>
        output_directory opts' = last_outdir (output_directory opts) is \<and>
        mode opts' = last_mode (mode opts) is"
    using assms
  proof (induction "is" arbitrary: opts)
    case Nil
    then show ?case by simp
  next
    case (Cons i "is")
    from Cons.prems obtain mid where mid: "step_item L opts i = Inr mid"
      and rest: "run_items L mid is = Inr opts'"
      by (auto split: sum.splits)
    note IH = Cons.IH[OF rest]
    have "first_stop L (i # is) = None"
      using IH step_item_ok[OF mid] by simp
    moreover have "images opts' = images opts @ positionals (i # is)"
      using IH step_item_fields(1)[OF mid] by (subst positionals_Cons) simp
    moreover have "output_directory opts' = last_outdir (output_directory opts) (i # is)"
      using IH step_item_fields(2)[OF mid] by (subst last_outdir_Cons) simp
    moreover have "mode opts' = last_mode (mode opts) (i # is)"
      using IH step_item_fields(3)[OF mid] by (subst last_mode_Cons) simp
    ultimately show ?case by blast
  qed
  then show "first_stop L is = None"
    and "images opts' = images opts @ positionals is"
    and "output_directory opts' = last_outdir (output_directory opts) is"
    and "mode opts' = last_mode (mode opts) is"
    by simp_all
qed

lemma parse_args_items:
  "parse_args L argv =
     (case run_items L default_options (items argv) of
        Inl s \<Rightarrow> Inl s
      | Inr opts \<Rightarrow>
          if images opts = [] then Inl (Throw (ArgParseError ''no input images given''))
          else if output_directory opts = [] then
            Inl (Throw (ArgParseError ''no output directory given''))
          else Inr opts)"
  by (simp add: parse_args_def parse_loop_items)

text \<open>
  Claim C10, as amended. The way \<^verbatim>\<open>parse_args\<close> ends is the one expected of the command
  line read item by item, each value-taking option consuming the token after it: the
  first item that stops the parser decides, and it is \<^verbatim>\<open>exit(EXIT_SUCCESS)\<close> for the help
  option, \<^verbatim>\<open>std::runtime_error\<close> (not \<^verbatim>\<open>ArgParseError\<close>) for a size that does not parse,
  and \<^verbatim>\<open>ArgParseError\<close> for a value-taking option at the end, an unknown option or a
  number of neighbours that does not parse. With no such item, \<^verbatim>\<open>ArgParseError\<close> is
  thrown when there is no image path or the output directory is empty, and an
  \<open>Options\<close> record is returned otherwise.
\<close>

theorem parse_args_outcome:
  "outcome_of (parse_args L argv) = expected_outcome L argv"
proof (cases "run_items L default_options (items argv)")
  case (Inl s)
  then show ?thesis
    by (simp add: parse_args_items expected_outcome_def run_items_stop[OF Inl])
next
  case (Inr opts)
  have "images default_options = []" "output_directory default_options = []"
    by (simp_all add: default_options_def)
  with run_items_ok[OF Inr] have "first_stop L (items argv) = None"
    and "images opts = positionals (items argv)"
    and "output_directory opts = last_outdir [] (items argv)"
    by simp_all
  then show ?thesis
    by (simp add: parse_args_items expected_outcome_def Inr)
qed

theorem parse_args_outcome_witness:
  "outcome_of (parse_args ref_clib [''a.jpg'', ''-o'', ''out'', ''-n'', ''5'']) = Returns_Options \<and>
   outcome_of (parse_args ref_clib [''a.jpg'', ''-n'']) = Throws_ArgParseError"
proof -
  have "expected_outcome ref_clib [''a.jpg'', ''-o'', ''out'', ''-n'', ''5''] = Returns_Options"
    by (simp add: expected_outcome_def value_options_def ref_clib_def ref_stoi_def scan_int_def
          is_space_def is_digit_def digits_value_def)
  moreover have "expected_outcome ref_clib [''a.jpg'', ''-n''] = Throws_ArgParseError"
    by (simp add: expected_outcome_def value_options_def)
  ultimately show ?thesis
    using parse_args_outcome[of ref_clib "[''a.jpg'', ''-o'', ''out'', ''-n'', ''5'']"]
      parse_args_outcome[of ref_clib "[''a.jpg'', ''-n'']"]
    by simp
qed

text \<open>
  Three command lines on which the outcome is not the one the claim as stated gives: the
  help option after a complete command line, a size that does not parse, and an unknown
  option spelling read as the value of \<open>-o\<close>.
\<close>

theorem parse_args_outcome_counterexample:
  "parse_args ref_clib [''a.jpg'', ''-o'', ''out'', ''-h''] = Inl ExitSuccess \<and>
   parse_args ref_clib [''a.jpg'', ''-o'', ''out'', ''--size'', ''big''] =
     Inl (Throw (RuntimeError ''failed to read cv::Size from big'')) \<and>
   parse_args ref_clib [''a.jpg'', ''-o'', ''--bogus''] =
     Inr (default_options\<lparr>images := [''a.jpg''], output_directory := ''--bogus''\<rparr>)"
  by (simp add: parse_args_def default_options_def to_size_def ref_clib_def ref_sscanf_dxd_def
        scan_int_def is_space_def is_digit_def)

lemma run_items_append:
  "run_items L opts (is1 @ is2) =
     (case run_items L opts is1 of Inl s \<Rightarrow> Inl s | Inr opts' \<Rightarrow> run_items L opts' is2)"
  by (induction is1 arbitrary: opts) (auto split: sum.splits)

lemma items_append:
  "first_stop L (items pre) = None \<Longrightarrow> items (pre @ post) = items pre @ items post"
proof (induction pre rule: length_induct)
  case (1 pre)
  show ?case
  proof (cases pre)
    case Nil
    then show ?thesis by simp
  next
    case (Cons arg rest)
    consider (valued) "arg \<in> set value_options"
      | (flag) "arg \<in> set flag_options"
      | (hlp) "arg = ''-h'' \<or> arg = ''--help''"
      | (pos) "\<not> (arg \<noteq> [] \<and> hd arg = CHR ''-'')"
      | (unk) "arg \<noteq> [] \<and> hd arg = CHR ''-''"
          "arg \<notin> set (value_options @ flag_options @ [''-h'', ''--help''])"
      by auto
    then show ?thesis
    proof cases
      case valued
      show ?thesis
      proof (cases rest)
        case Nil
        with 1(2) show ?thesis
          unfolding \<open>pre = arg # rest\<close> by (simp add: items_valued(1)[OF valued] del: items.simps)
      next
        case rest: (Cons v rest')
        have "first_stop L (items rest') = None"
          using 1(2) unfolding \<open>pre = arg # rest\<close> rest items_valued(2)[OF valued]
          by (simp split: option.splits)
        moreover have "length rest' < length pre"
          using Cons rest by simp
        ultimately have "items (rest' @ post) = items rest' @ items post"
          using 1(1) by blast
        then show ?thesis
          unfolding \<open>pre = arg # rest\<close> rest
          using items_valued(2)[OF valued] by (simp del: items.simps)
      qed
    next
      case flag
      have "first_stop L (items rest) = None"
        using 1(2) unfolding Cons items_flag[OF flag] by (simp split: option.splits)
      then have "items (rest @ post) = items rest @ items post"
        using 1(1) Cons by simp
      then show ?thesis
        unfolding Cons using items_flag[OF flag] by (simp del: items.simps)
    next
      case hlp
      then show ?thesis
        using 1(2) unfolding Cons by (auto simp: items_help simp del: items.simps)
    next
      case pos
      have "first_stop L (items rest) = None"
        using 1(2) unfolding Cons items_positional[OF pos] by simp
      then have "items (rest @ post) = items rest @ items post"
        using 1(1) Cons by simp
      then show ?thesis
        unfolding Cons using items_positional[OF pos] by (simp del: items.simps)
    next
      case unk
      then show ?thesis
        using 1(2) unfolding Cons by (simp add: items_unknown[OF unk] del: items.simps)
    qed
  qed
qed

lemma parse_loop_append:
  assumes "parse_loop L opts pre = Inr opts'"
  shows "parse_loop L opts (pre @ post) = parse_loop L opts' post"
proof -
  have ok: "run_items L opts (items pre) = Inr opts'"
    using assms by (simp add: parse_loop_items)
  have "items (pre @ post) = items pre @ items post"
    by (rule items_append[OF run_items_ok(1)[OF ok]])
  then show ?thesis
    by (simp add: parse_loop_items run_items_append ok)
qed

lemma parse_loop_output_unknown:
  "parse_loop L opts (''--output'' # post) =
     Inl (Throw (ArgParseError ''unknown argument --output given''))"
  by simp

text \<open>
  Claim C8, as amended. Whenever the tokens before an occurrence of \<open>--output\<close> are parsed
  to their end (no error, no help exit, no value-taking option left waiting for its
  value), so that \<open>--output\<close> is read as an option, \<^verbatim>\<open>parse_args\<close> throws
  \<^verbatim>\<open>ArgParseError\<close> for an unknown argument. The output directory of the record
  returned is the value of the last \<open>-o\<close> or \<open>--option\<close> item and of nothing else. The
  help text documents the long spelling \<open>--output DIR\<close>.
\<close>

theorem output_option_spelling:
  "(parse_loop L default_options pre = Inr opts' \<longrightarrow>
      parse_args L (pre @ ''--output'' # post) =
        Inl (Throw (ArgParseError ''unknown argument --output given''))) \<and>
   (parse_args L argv = Inr opts \<longrightarrow> output_directory opts = last_outdir [] (items argv)) \<and>
   ''  -o, --output DIR          Output directory'' \<in> set print_help"
proof (intro conjI impI)
  assume "parse_loop L default_options pre = Inr opts'"
  then have "parse_loop L default_options (pre @ ''--output'' # post) =
      Inl (Throw (ArgParseError ''unknown argument --output given''))"
    by (simp only: parse_loop_append parse_loop_output_unknown)
  then show "parse_args L (pre @ ''--output'' # post) =
      Inl (Throw (ArgParseError ''unknown argument --output given''))"
    by (simp add: parse_args_def)
next
  assume ok: "parse_args L argv = Inr opts"
  then obtain opts0 where run: "run_items L default_options (items argv) = Inr opts0"
    by (cases "run_items L default_options (items argv)") (auto simp: parse_args_items)
  with ok have "opts0 = opts"
    by (auto simp: parse_args_items split: if_splits)
  with run_items_ok(3)[OF run] show "output_directory opts = last_outdir [] (items argv)"
    by (simp add: default_options_def)
next
  show "''  -o, --output DIR          Output directory'' \<in> set print_help"
    by (simp add: print_help_def)
qed

theorem output_option_spelling_witness:
  "parse_args ref_clib [''img'', ''--output'', ''out''] =
     Inl (Throw (ArgParseError ''unknown argument --output given'')) \<and>
   output_directory (default_options\<lparr>images := [''img''], output_directory := ''out''\<rparr>) =
     last_outdir [] (items [''img'', ''-o'', ''out''])"
proof -
  have pre: "parse_loop ref_clib default_options [''img''] =
      Inr (default_options\<lparr>images := [''img'']\<rparr>)"
    by (simp add: default_options_def)
  have ok: "parse_args ref_clib [''img'', ''-o'', ''out''] =
      Inr (default_options\<lparr>images := [''img''], output_directory := ''out''\<rparr>)"
    by (simp add: parse_args_def default_options_def)
  have "last_outdir [] (items [''img'', ''-o'', ''out'']) = ''out''"
    by (simp add: value_options_def)
  with output_option_spelling[of ref_clib "[''img'']" "default_options\<lparr>images := [''img'']\<rparr>"
      "[''out'']" "[''img'', ''-o'', ''out'']"
      "default_options\<lparr>images := [''img''], output_directory := ''out''\<rparr>"] pre ok
  show ?thesis by simp
qed

text \<open>
  The token \<open>--output\<close> right after \<open>-o\<close> is the value of \<open>-o\<close>: nothing is thrown.
\<close>

theorem output_long_option_counterexample:
  "parse_args ref_clib [''-o'', ''--output'', ''img''] =
     Inr (default_options\<lparr>output_directory := ''--output'', images := [''img'']\<rparr>)"
  by (simp add: parse_args_def default_options_def)

lemma parse_loop_images:
  assumes "\<forall>a \<in> set imgs. \<not> (a \<noteq> [] \<and> hd a = CHR ''-'')"
  shows "parse_loop L opts (imgs @ rest) = parse_loop L (opts\<lparr>images := images opts @ imgs\<rparr>) rest"
  using assms
proof (induction imgs arbitrary: opts)
  case Nil
  then show ?case by simp
next
  case (Cons a imgs)
  have "parse_loop L opts ((a # imgs) @ rest) =
        parse_loop L (opts\<lparr>images := images opts @ [a]\<rparr>) (imgs @ rest)"
    using Cons.prems by (simp add: parse_loop_positional del: parse_loop.simps(2))
  also have "\<dots> = parse_loop L (opts\<lparr>images := images opts @ [a]\<rparr>
      \<lparr>images := images (opts\<lparr>images := images opts @ [a]\<rparr>) @ imgs\<rparr>) rest"
    using Cons.prems by (intro Cons.IH) simp
  finally show ?case by simp
qed

text \<open>
  Claim C7. An \<open>Options\<close> record is made of exactly eight fields: the input paths, the
  output directory, the output size, the optional minimum and maximum face size, the
  verbosity flag, the number of neighbours and the mode. Each is set from the command
  line: for any values of the eight (with numbers and sizes written so that the C
  library reads them), a command line exists that makes \<^verbatim>\<open>parse_args\<close> return exactly
  that record, and the options left out keep their defaults.
\<close>

theorem options_fields_settable:
  assumes "imgs \<noteq> []"
    and "\<forall>a \<in> set imgs. \<not> (a \<noteq> [] \<and> hd a = CHR ''-'')"
    and "dir \<noteq> []"
    and "sscanf_dxd L s_out = Some (ow, oh)"
    and "sscanf_dxd L s_min = Some (mw, mh)"
    and "sscanf_dxd L s_max = Some (xw, xh)"
    and "stoi L s_n = Some n"
  shows "parse_args L
           ((if m = OPENCV then [''--opencv''] else [''--dlib'']) @ (if v then [''-v''] else []) @
            imgs @
            [''-o'', dir, ''--size'', s_out, ''--min-size'', s_min, ''--max-size'', s_max,
             ''-n'', s_n]) =
         Inr \<lparr>mode = m, images = imgs, output_directory = dir,
              output_size = \<lparr>size_width = ow, size_height = oh\<rparr>,
              min_size = Some \<lparr>size_width = mw, size_height = mh\<rparr>,
              max_size = Some \<lparr>size_width = xw, size_height = xh\<rparr>,
              verbose = v, min_neighbors = n\<rparr> \<and>
         parse_args L (imgs @ [''-o'', dir]) =
           Inr (default_options\<lparr>images := imgs, output_directory := dir\<rparr>) \<and>
         (opts :: Options) =
           \<lparr>mode = mode opts, images = images opts, output_directory = output_directory opts,
            output_size = output_size opts, min_size = min_size opts, max_size = max_size opts,
            verbose = verbose opts, min_neighbors = min_neighbors opts\<rparr>"
proof (intro conjI)
  let ?tail = "[''-o'', dir, ''--size'', s_out, ''--min-size'', s_min, ''--max-size'', s_max,
             ''-n'', s_n]"
  have tail: "parse_loop L o1 ?tail =
      Inr (o1\<lparr>output_directory := dir, output_size := \<lparr>size_width = ow, size_height = oh\<rparr>,
              min_size := Some \<lparr>size_width = mw, size_height = mh\<rparr>,
              max_size := Some \<lparr>size_width = xw, size_height = xh\<rparr>, min_neighbors := n\<rparr>)" for o1
    using assms(4-7) by (simp add: parse_loop_valued to_size_def del: parse_loop.simps(2))
  have imgs: "parse_loop L o1 (imgs @ ?tail) =
      parse_loop L (o1\<lparr>images := images o1 @ imgs\<rparr>) ?tail" for o1
    by (rule parse_loop_images[OF assms(2)])
  have flags: "parse_loop L default_options
      ((if m = OPENCV then [''--opencv''] else [''--dlib'']) @ (if v then [''-v''] else []) @ rest) =
      parse_loop L (default_options\<lparr>mode := m, verbose := v\<rparr>) rest" for rest
    by (cases m; cases v) (simp_all add: parse_loop_flag default_options_def del: parse_loop.simps(2))
  show "parse_args L
           ((if m = OPENCV then [''--opencv''] else [''--dlib'']) @ (if v then [''-v''] else []) @
            imgs @ ?tail) =
         Inr \<lparr>mode = m, images = imgs, output_directory = dir,
              output_size = \<lparr>size_width = ow, size_height = oh\<rparr>,
              min_size = Some \<lparr>size_width = mw, size_height = mh\<rparr>,
              max_size = Some \<lparr>size_width = xw, size_height = xh\<rparr>,
              verbose = v, min_neighbors = n\<rparr>"
    unfolding parse_args_def flags imgs tail
    using assms(1,3) by (simp add: default_options_def)
  have "parse_loop L default_options (imgs @ [''-o'', dir]) =
      Inr (default_options\<lparr>images := imgs, output_directory := dir\<rparr>)"
    unfolding parse_loop_images[OF assms(2)]
    by (simp add: parse_loop_valued default_options_def del: parse_loop.simps(2))
  then show "parse_args L (imgs @ [''-o'', dir]) =
      Inr (default_options\<lparr>images := imgs, output_directory := dir\<rparr>)"
    using assms(1,3) by (simp add: parse_args_def)
  show "opts = \<lparr>mode = mode opts, images = images opts, output_directory = output_directory opts,
            output_size = output_size opts, min_size = min_size opts, max_size = max_size opts,
            verbose = verbose opts, min_neighbors = min_neighbors opts\<rparr>"
    by simp
qed

theorem options_fields_settable_witness:
  "parse_args ref_clib
     [''--opencv'', ''-v'', ''a.jpg'', ''b.png'', ''-o'', ''out'', ''--size'', ''64x48'',
      ''--min-size'', ''30x30'', ''--max-size'', ''400x300'', ''-n'', ''5''] =
   Inr \<lparr>mode = OPENCV, images = [''a.jpg'', ''b.png''], output_directory = ''out'',
        output_size = \<lparr>size_width = 64, size_height = 48\<rparr>,
        min_size = Some \<lparr>size_width = 30, size_height = 30\<rparr>,
        max_size = Some \<lparr>size_width = 400, size_height = 300\<rparr>,
        verbose = True, min_neighbors = 5\<rparr>"
proof -
  have sizes: "sscanf_dxd ref_clib ''64x48'' = Some (64, 48)"
    "sscanf_dxd ref_clib ''30x30'' = Some (30, 30)"
    "sscanf_dxd ref_clib ''400x300'' = Some (400, 300)"
    by (simp_all add: ref_clib_def ref_sscanf_dxd_def scan_int_def is_space_def is_digit_def
          digits_value_def)
  have n: "stoi ref_clib ''5'' = Some 5"
    by (simp add: ref_clib_def ref_stoi_def scan_int_def is_space_def is_digit_def
          digits_value_def)
  have imgs: "[''a.jpg'', ''b.png''] \<noteq> []"
    "\<forall>a \<in> set [''a.jpg'', ''b.png'']. \<not> (a \<noteq> [] \<and> hd a = CHR ''-'')"
    "''out'' \<noteq> []"
    by simp_all
  show ?thesis
    using options_fields_settable[OF imgs sizes n, of OPENCV True] by simp
qed

section \<open>Properties of the extraction\<close>

lemma inflate_id: "inflate face = face"
  by (simp add: inflate_def inflation_def)

lemma adjust_face_id: "adjust_face img face = face"
  by (simp add: adjust_face_def inflate_id)

lemma imwrites_append: "imwrites (xs @ ys) = imwrites xs @ imwrites ys"
  by (induction xs rule: imwrites.induct) simp_all

lemma extract_loop_Cons:
  "extract_loop img image_idx dir sz k (face # faces) =
     (if \<not> croppable img sz face then
        ((if enlargement_rejected img face then [Stdout Msg_enlargement_rejected] else []) @
         [Stdout (Msg_extracting_face_at face (cols img) (rows img))],
         Some (Cv_exception (if \<not> roi_inside img face then Roi_outside_matrix
                             else Resize_of_empty)))
      else
        ((if enlargement_rejected img face then [Stdout Msg_enlargement_rejected] else []) @
         [Stdout (Msg_extracting_face_at face (cols img) (rows img)),
          Imwrite (face_filename dir image_idx k)
            \<lparr>thumb_image = img, thumb_roi = face, thumb_size = sz\<rparr>] @
         fst (extract_loop img image_idx dir sz (k + 1) faces),
         snd (extract_loop img image_idx dir sz (k + 1) faces)))"
  by (simp add: Let_def adjust_face_id inflate_id croppable_def)

lemma imwrites_extract_loop:
  "imwrites (fst (extract_loop img image_idx dir sz k faces)) =
     map (\<lambda>j. (face_filename dir image_idx (k + of_nat j),
               \<lparr>thumb_image = img, thumb_roi = faces ! j, thumb_size = sz\<rparr>))
       [0..<length (takeWhile (croppable img sz) faces)]"
proof (induction faces arbitrary: k)
  case Nil
  then show ?case by simp
next
  case (Cons face faces)
  show ?case
  proof (cases "croppable img sz face")
    case False
    then show ?thesis
      by (simp add: extract_loop_Cons imwrites_append del: extract_loop.simps)
  next
    case True
    have "map (\<lambda>j. (face_filename dir image_idx (k + of_nat j),
               \<lparr>thumb_image = img, thumb_roi = (face # faces) ! j, thumb_size = sz\<rparr>))
          [0..<Suc (length (takeWhile (croppable img sz) faces))] =
        (face_filename dir image_idx k, \<lparr>thumb_image = img, thumb_roi = face, thumb_size = sz\<rparr>) #
        map (\<lambda>j. (face_filename dir image_idx (k + 1 + of_nat j),
               \<lparr>thumb_image = img, thumb_roi = faces ! j, thumb_size = sz\<rparr>))
          [0..<length (takeWhile (croppable img sz) faces)]"
      by (simp add: upt_conv_Cons map_Suc_upt[symmetric] ac_simps del: upt_Suc)
    with True show ?thesis
      by (simp add: extract_loop_Cons imwrites_append Cons.IH del: extract_loop.simps upt_Suc)
  qed
qed


lemma imwrites_extract_faces:
  "imwrites (fst (extract_faces img faces (of_nat i) dir sz)) =
     take (length (takeWhile (croppable img sz) faces)) (thumbnails img faces i dir sz)"
proof -
  have "length (takeWhile (croppable img sz) faces) \<le> length faces"
    by (rule length_takeWhile_le)
  then show ?thesis
    by (simp add: extract_faces_def thumbnails_def imwrites_extract_loop take_map min_def)
qed

lemma takeWhile_all: "list_all P xs \<Longrightarrow> takeWhile P xs = xs"
  by (simp add: list_all_iff)

lemma imwrites_extract_faces_all:
  "list_all (croppable img sz) faces \<Longrightarrow>
     imwrites (fst (extract_faces img faces (of_nat i) dir sz)) = thumbnails img faces i dir sz"
  by (simp add: imwrites_extract_faces takeWhile_all thumbnails_def)












lemma thumbnails_rois: "map (thumb_roi \<circ> snd) (thumbnails img faces i dir sz) = faces"
  by (simp add: thumbnails_def comp_def map_nth)

lemma thumbnails_length: "length (thumbnails img faces i dir sz) = length faces"
  by (simp add: thumbnails_def)

lemma rois_prefix:
  "map (thumb_roi \<circ> snd) (take n (thumbnails img faces i dir sz)) = take n faces"
  by (simp add: take_map[symmetric] thumbnails_rois)

lemma imwrites_guarded: "imwrites (Acquire # body @ [Release]) = imwrites body"
  by (simp add: imwrites_append)

lemma dlib_task_readable:
  assumes "\<not> mat_empty (imread w (images opts ! i))"
  shows "dlib_task w opts i =
     (Acquire #
      ((if verbose opts then [Stdout (Msg_processing (images opts ! i))] else []) @
       [Detect Dlib_frontal_face_detector (cvtColor_BGR2GRAY w (imread w (images opts ! i)))] @
       fst (extract_faces (imread w (images opts ! i))
              (map to_cv_rect
                 (frontal_face_detector w (cvtColor_BGR2GRAY w (imread w (images opts ! i)))))
              (of_nat i) (output_directory opts) (output_size opts))) @
      [Release],
      snd (extract_faces (imread w (images opts ! i))
             (map to_cv_rect
                (frontal_face_detector w (cvtColor_BGR2GRAY w (imread w (images opts ! i)))))
             (of_nat i) (output_directory opts) (output_size opts)))"
  using assms by (simp add: dlib_task_def SemaphoreGuard_def Let_def)

lemma dlib_task_unreadable:
  assumes "mat_empty (imread w (images opts ! i))"
  shows "dlib_task w opts i =
     (Acquire # (if verbose opts then [Stdout (Msg_processing (images opts ! i))] else []) @
      [Release],
      Some (Cv_exception CvtColor_of_empty))"
  using assms by (simp add: dlib_task_def SemaphoreGuard_def Let_def)

lemma opencv_task_readable:
  assumes "cascade_load w cf" "\<not> mat_empty (imread w (images opts ! i))"
  shows "fst (opencv_task w opts cf i) =
     Acquire #
     ([Detect OpenCV_CascadeClassifier (imread w (images opts ! i))] @
      fst (extract_faces (imread w (images opts ! i))
             (detect_faces w cf (imread w (images opts ! i)) (min_size opts) (max_size opts)
                (min_neighbors opts))
             (of_nat i) (output_directory opts) (output_size opts)) @
      (case snd (extract_faces (imread w (images opts ! i))
             (detect_faces w cf (imread w (images opts ! i)) (min_size opts) (max_size opts)
                (min_neighbors opts))
             (of_nat i) (output_directory opts) (output_size opts)) of
         None \<Rightarrow>
           [Stdout (Msg_detected (length (detect_faces w cf (imread w (images opts ! i))
              (min_size opts) (max_size opts) (min_neighbors opts))))]
       | Some e \<Rightarrow> [])) @
     [Release]"
    and "snd (opencv_task w opts cf i) =
      snd (extract_faces (imread w (images opts ! i))
             (detect_faces w cf (imread w (images opts ! i)) (min_size opts) (max_size opts)
                (min_neighbors opts))
             (of_nat i) (output_directory opts) (output_size opts))"
  using assms by (simp_all add: opencv_task_def SemaphoreGuard_def Let_def split: option.splits)

lemma opencv_task_unreadable:
  "\<not> cascade_load w cf \<Longrightarrow>
     opencv_task w opts cf i =
       ([Acquire, Release], Some (Std_exception (RuntimeError (''failed to load '' @ cf))))"
  "cascade_load w cf \<Longrightarrow> mat_empty (imread w (images opts ! i)) \<Longrightarrow>
     opencv_task w opts cf i =
       ([Acquire, Stderr (Msg_failed_to_read_image (images opts ! i)), Release], None)"
  by (simp_all add: opencv_task_def SemaphoreGuard_def Let_def)








text \<open>
  Claim C6. The adjustment made before cropping is the identity: the inflation is 0, so
  the inflated rectangle is the detected one, and whether the bounds test rejects the
  enlargement or not, the rectangle cropped is the detected one. So the rectangles
  cropped and written for an image are detected ones, in order, and all of them when
  every rectangle can be cropped and resized.
\<close>

theorem adjustment_is_identity:
  "inflate face = face \<and>
   adjust_face img face = face \<and>
   map (thumb_roi \<circ> snd) (imwrites (fst (extract_faces img faces (of_nat i) dir sz))) =
     take (length (imwrites (fst (extract_faces img faces (of_nat i) dir sz)))) faces \<and>
   (list_all (croppable img sz) faces \<longrightarrow>
      map (thumb_roi \<circ> snd) (imwrites (fst (extract_faces img faces (of_nat i) dir sz))) = faces)"
proof -
  have "map (thumb_roi \<circ> snd) (imwrites (fst (extract_faces img faces (of_nat i) dir sz))) =
      take (length (imwrites (fst (extract_faces img faces (of_nat i) dir sz)))) faces"
    by (simp add: imwrites_extract_faces rois_prefix thumbnails_length min_def
          length_takeWhile_le)
  moreover have "map (thumb_roi \<circ> snd)
      (imwrites (fst (extract_faces img faces (of_nat i) dir sz))) = faces"
    if "list_all (croppable img sz) faces"
    using that by (simp add: imwrites_extract_faces_all thumbnails_rois)
  ultimately show ?thesis
    using inflate_id adjust_face_id by blast
qed

theorem adjustment_is_identity_witness:
  "enlargement_rejected \<lparr>cols = 640, rows = 480, mat_empty = False, mat_data = ''a.jpg''\<rparr>
     (inflate \<lparr>rect_x = 540, rect_y = 300, rect_width = 100, rect_height = 120\<rparr>) \<and>
   adjust_face \<lparr>cols = 640, rows = 480, mat_empty = False, mat_data = ''a.jpg''\<rparr>
     \<lparr>rect_x = 540, rect_y = 300, rect_width = 100, rect_height = 120\<rparr> =
     \<lparr>rect_x = 540, rect_y = 300, rect_width = 100, rect_height = 120\<rparr> \<and>
   \<not> enlargement_rejected \<lparr>cols = 640, rows = 480, mat_empty = False, mat_data = ''a.jpg''\<rparr>
     (inflate \<lparr>rect_x = 10, rect_y = 20, rect_width = 100, rect_height = 100\<rparr>) \<and>
   adjust_face \<lparr>cols = 640, rows = 480, mat_empty = False, mat_data = ''a.jpg''\<rparr>
     \<lparr>rect_x = 10, rect_y = 20, rect_width = 100, rect_height = 100\<rparr> =
     \<lparr>rect_x = 10, rect_y = 20, rect_width = 100, rect_height = 100\<rparr> \<and>
   map (thumb_roi \<circ> snd)
     (imwrites (fst (extract_faces
        \<lparr>cols = 640, rows = 480, mat_empty = False, mat_data = ''a.jpg''\<rparr>
        [\<lparr>rect_x = 10, rect_y = 20, rect_width = 100, rect_height = 100\<rparr>,
         \<lparr>rect_x = 540, rect_y = 300, rect_width = 100, rect_height = 120\<rparr>]
        0 ''out'' \<lparr>size_width = 512, size_height = 512\<rparr>))) =
     [\<lparr>rect_x = 10, rect_y = 20, rect_width = 100, rect_height = 100\<rparr>,
      \<lparr>rect_x = 540, rect_y = 300, rect_width = 100, rect_height = 120\<rparr>]"
proof -
  let ?img = "\<lparr>cols = 640, rows = 480, mat_empty = False, mat_data = ''a.jpg''\<rparr>"
  let ?r1 = "\<lparr>rect_x = 10, rect_y = 20, rect_width = 100, rect_height = 100\<rparr>"
  let ?r2 = "\<lparr>rect_x = 540, rect_y = 300, rect_width = 100, rect_height = 120\<rparr>"
  let ?sz = "\<lparr>size_width = 512, size_height = 512\<rparr>"
  have tests: "enlargement_rejected ?img (inflate ?r2) \<and> \<not> enlargement_rejected ?img (inflate ?r1)"
    by code_simp
  have ok: "list_all (croppable ?img ?sz) [?r1, ?r2]"
    by code_simp
  note inst = adjustment_is_identity[of ?r2 ?img "[?r1, ?r2]" 0 "''out''" ?sz,
      unfolded semiring_1_class.of_nat_0]
  from inst ok
  have "adjust_face ?img ?r2 = ?r2"
    and "map (thumb_roi \<circ> snd) (imwrites (fst (extract_faces ?img [?r1, ?r2] 0 ''out'' ?sz))) =
      [?r1, ?r2]"
    by blast+
  moreover from adjustment_is_identity[of ?r1 ?img "[]" 0 "''out''" ?sz]
  have "adjust_face ?img ?r1 = ?r1"
    by blast
  ultimately show ?thesis
    using tests by blast
qed

section \<open>Properties of the tasks and of the dispatch\<close>

lemma detections_append: "detections (xs @ ys) = detections xs @ detections ys"
  by (induction xs rule: detections.induct) simp_all

lemma stderr_messages_append: "stderr_messages (xs @ ys) = stderr_messages xs @ stderr_messages ys"
  by (induction xs rule: stderr_messages.induct) simp_all

lemma extract_loop_quiet:
  "detections (fst (extract_loop img image_idx dir sz k faces)) = [] \<and>
   stderr_messages (fst (extract_loop img image_idx dir sz k faces)) = [] \<and>
   Acquire \<notin> set (fst (extract_loop img image_idx dir sz k faces)) \<and>
   Release \<notin> set (fst (extract_loop img image_idx dir sz k faces))"
  by (induction faces arbitrary: k)
     (simp_all add: extract_loop_Cons detections_append stderr_messages_append
        del: extract_loop.simps(2))

lemma extract_faces_quiet:
  "detections (fst (extract_faces img faces image_idx dir sz)) = []"
  "stderr_messages (fst (extract_faces img faces image_idx dir sz)) = []"
  "Acquire \<notin> set (fst (extract_faces img faces image_idx dir sz))"
  "Release \<notin> set (fst (extract_faces img faces image_idx dir sz))"
  by (simp_all add: extract_faces_def extract_loop_quiet)



lemma dlib_task_shape:
  "\<exists>body. fst (dlib_task w opts i) = Acquire # body @ [Release] \<and>
      Acquire \<notin> set body \<and> Release \<notin> set body"
  by (cases "mat_empty (imread w (images opts ! i))")
     (simp_all add: dlib_task_readable dlib_task_unreadable extract_faces_quiet)

lemma opencv_task_shape:
  "\<exists>body. fst (opencv_task w opts cf i) = Acquire # body @ [Release] \<and>
      Acquire \<notin> set body \<and> Release \<notin> set body"
proof (cases "cascade_load w cf")
  case False
  then show ?thesis by (simp add: opencv_task_unreadable)
next
  case True
  show ?thesis
  proof (cases "mat_empty (imread w (images opts ! i))")
    case empty: True
    with True show ?thesis by (simp add: opencv_task_unreadable)
  next
    case False
    with True show ?thesis
      by (simp add: opencv_task_readable(1) extract_faces_quiet split: option.splits)
  qed
qed

lemma task_of_shape:
  "\<exists>body. task_of w opts i = Acquire # body @ [Release] \<and>
      Acquire \<notin> set body \<and> Release \<notin> set body"
proof (cases "mode opts")
  case DLIB
  then show ?thesis using dlib_task_shape[of w opts i] by (simp add: task_of_def)
next
  case OPENCV
  then show ?thesis
    using opencv_task_shape[of w opts _ i] by (simp add: task_of_def)
qed








section \<open>Properties of the interleaved run\<close>

lemma filter_update_length:
  "i < length xs \<Longrightarrow>
     length (filter P (xs[i := y])) + (if P (xs ! i) then 1 else 0) =
     length (filter P xs) + (if P y then 1 else 0)"
proof (induction xs arbitrary: i)
  case Nil
  then show ?case by simp
next
  case (Cons x xs)
  then show ?case by (cases i) auto
qed

lemma filter_update_le:
  "\<not> P y \<Longrightarrow> length (filter P (xs[i := y])) \<le> length (filter P xs)"
proof (cases "i < length xs")
  case True
  assume "\<not> P y"
  with filter_update_length[OF True, of P y] show ?thesis by (simp split: if_splits)
next
  case False
  then have "xs[i := y] = xs" by (simp add: list_update_beyond)
  then show ?thesis by simp
qed

lemma sem_ops_simps:
  "sem_ops [] = []"
  "sem_ops (Acquire # r) = Acquire # sem_ops r"
  "sem_ops (Release # r) = Release # sem_ops r"
  "e \<noteq> Acquire \<Longrightarrow> e \<noteq> Release \<Longrightarrow> sem_ops (e # r) = sem_ops r"
  "sem_ops (xs @ ys) = sem_ops xs @ sem_ops ys"
  by (simp_all add: sem_ops_def)

lemma sem_ops_member:
  "Acquire \<in> set r \<longleftrightarrow> Acquire \<in> set (sem_ops r)"
  "Release \<in> set r \<longleftrightarrow> Release \<in> set (sem_ops r)"
  by (auto simp: sem_ops_def)

lemma sem_ops_empty: "Acquire \<notin> set body \<Longrightarrow> Release \<notin> set body \<Longrightarrow> sem_ops body = []"
  by (auto simp: sem_ops_def filter_empty_conv)

lemma holds_slot_sem_ops:
  "holds_slot (Some r) \<longleftrightarrow> Acquire \<notin> set (sem_ops r) \<and> Release \<in> set (sem_ops r)"
  using sem_ops_member[of r] by (simp add: holds_slot_def)

lemma task_of_guarded: "guarded (Some (task_of w opts i))" "\<not> holds_slot (Some (task_of w opts i))"
proof -
  obtain body where "task_of w opts i = Acquire # body @ [Release]"
    "Acquire \<notin> set body" "Release \<notin> set body"
    using task_of_shape by blast
  then have "sem_ops (task_of w opts i) = [Acquire, Release]"
    by (simp add: sem_ops_simps sem_ops_empty)
  then show "guarded (Some (task_of w opts i))" "\<not> holds_slot (Some (task_of w opts i))"
    by (simp_all add: guarded_def holds_slot_sem_ops)
qed

lemma fire_Main_cases:
  assumes "fire w s Main = Some s'"
  obtains (launch) i rest where "st_main s = Async i # rest"
      "s' = s\<lparr>st_main := rest, st_tasks := (st_tasks s)[i := Some (task_of w (st_opts s) i)]\<rparr>"
    | (join) i rest where "st_main s = FutureGet i # rest" "i < length (st_tasks s)"
      "st_tasks s ! i = Some []" "s' = s\<lparr>st_main := rest\<rparr>"
    | (other) e rest where "st_main s = e # rest" "\<not> is_get e" "s' = s\<lparr>st_main := rest\<rparr>"
  using assms
  by (auto split: list.splits event.splits if_splits)

lemma fire_Task_cases:
  assumes "fire w s (Task i) = Some s'"
  obtains (acquire) rest where "i < length (st_tasks s)" "st_tasks s ! i = Some (Acquire # rest)"
      "0 < st_sem s"
      "s' = s\<lparr>st_sem := st_sem s - 1, st_tasks := (st_tasks s)[i := Some rest]\<rparr>"
    | (release) rest where "i < length (st_tasks s)" "st_tasks s ! i = Some (Release # rest)"
      "s' = s\<lparr>st_sem := st_sem s + 1, st_tasks := (st_tasks s)[i := Some rest]\<rparr>"
    | (other) e rest where "i < length (st_tasks s)" "st_tasks s ! i = Some (e # rest)"
      "e \<noteq> Acquire" "e \<noteq> Release"
      "s' = s\<lparr>st_tasks := (st_tasks s)[i := Some rest]\<rparr>"
  using assms
  by (auto split: list.splits event.splits if_splits option.splits)

lemma guarded_update:
  "list_all guarded ts \<Longrightarrow> guarded t \<Longrightarrow> list_all guarded (ts[i := t])"
  using set_update_subset_insert[of ts i t] by (auto simp: list_all_iff)

lemma holders_update:
  assumes "i < length (st_tasks s)"
  shows "length (filter holds_slot ((st_tasks s)[i := t])) + (if holds_slot (st_tasks s ! i) then 1 else 0) =
         holders s + (if holds_slot t then 1 else 0)"
  unfolding holders_def by (rule filter_update_length[OF assms])

lemma guarded_nth: "list_all guarded ts \<Longrightarrow> i < length ts \<Longrightarrow> guarded (ts ! i)"
  by (simp add: list_all_length)

lemma fire_slots_inv:
  assumes inv: "slots_inv w s" and step: "fire w s t = Some s'"
  shows "slots_inv w s'"
proof (cases t)
  case Main
  with step have "fire w s Main = Some s'" by simp
  then show ?thesis
  proof (cases rule: fire_Main_cases)
    case (launch i rest)
    have "holders s' \<le> holders s"
      unfolding holders_def launch(2) using task_of_guarded(2)
      by (simp add: filter_update_le)
    moreover have "list_all guarded (st_tasks s')"
      unfolding launch(2) using inv task_of_guarded(1)
      by (simp add: slots_inv_def guarded_update)
    moreover have "st_sem s' = st_sem s"
      unfolding launch(2) by simp
    ultimately show ?thesis
      using inv by (simp add: slots_inv_def)
  next
    case (join i rest)
    with inv show ?thesis by (simp add: slots_inv_def holders_def)
  next
    case (other e rest)
    with inv show ?thesis by (simp add: slots_inv_def holders_def)
  qed
next
  case (Task i)
  with step have "fire w s (Task i) = Some s'" by simp
  then show ?thesis
  proof (cases rule: fire_Task_cases)
    case (acquire rest)
    from inv acquire(1,2) have "guarded (Some (Acquire # rest))"
      using guarded_nth[of "st_tasks s" i] by (simp add: slots_inv_def)
    then have ops: "sem_ops rest = [Release]"
      by (simp add: guarded_def sem_ops_simps)
    have old: "\<not> holds_slot (st_tasks s ! i)"
      by (simp add: acquire(2) holds_slot_def)
    have new: "holds_slot (Some rest)" "guarded (Some rest)"
      using ops by (simp_all add: holds_slot_sem_ops guarded_def)
    have "holders s' = holders s + 1"
      using holders_update[OF acquire(1), of "Some rest"] old new(1)
      by (simp add: holders_def acquire(4))
    moreover have "st_sem s' = st_sem s - 1"
      by (simp add: acquire(4))
    moreover have "list_all guarded (st_tasks s')"
      using inv new(2) by (simp add: acquire(4) slots_inv_def guarded_update)
    ultimately show ?thesis
      using inv acquire(3) by (simp add: slots_inv_def)
  next
    case (release rest)
    from inv release(1,2) have "guarded (Some (Release # rest))"
      using guarded_nth[of "st_tasks s" i] by (simp add: slots_inv_def)
    then have ops: "sem_ops rest = []"
      by (simp add: guarded_def sem_ops_simps)
    have old: "holds_slot (st_tasks s ! i)"
      using ops by (simp add: release(2) holds_slot_sem_ops sem_ops_simps)
    have new: "\<not> holds_slot (Some rest)" "guarded (Some rest)"
      using ops by (simp_all add: holds_slot_sem_ops guarded_def)
    have "holders s' + 1 = holders s"
      using holders_update[OF release(1), of "Some rest"] old new(1)
      by (simp add: holders_def release(3))
    moreover have "st_sem s' = st_sem s + 1"
      by (simp add: release(3))
    moreover have "list_all guarded (st_tasks s')"
      using inv new(2) by (simp add: release(3) slots_inv_def guarded_update)
    ultimately show ?thesis
      using inv by (simp add: slots_inv_def)
  next
    case (other e rest)
    from inv other(1,2) have g: "guarded (Some (e # rest))"
      using guarded_nth[of "st_tasks s" i] by (simp add: slots_inv_def)
    have ops: "sem_ops (e # rest) = sem_ops rest"
      using other(3,4) by (simp add: sem_ops_simps)
    have same: "holds_slot (Some rest) = holds_slot (st_tasks s ! i)"
      by (simp add: other(2) holds_slot_sem_ops ops)
    have new: "guarded (Some rest)"
      using g by (simp add: guarded_def ops)
    have "holders s' = holders s"
      using holders_update[OF other(1), of "Some rest"] same
      by (simp add: holders_def other(5))
    moreover have "list_all guarded (st_tasks s')"
      using inv new by (simp add: other(5) slots_inv_def guarded_update)
    ultimately show ?thesis
      using inv by (simp add: slots_inv_def other(5))
  qed
qed

lemma exec_slots_inv:
  "slots_inv w s \<Longrightarrow> exec w s sched = Some s' \<Longrightarrow> slots_inv w s'"
proof (induction sched arbitrary: s)
  case Nil
  then show ?case by simp
next
  case (Cons t sched)
  from Cons.prems(2) obtain mid where "fire w s t = Some mid" "exec w mid sched = Some s'"
    by (auto split: option.splits)
  with Cons.IH fire_slots_inv[OF Cons.prems(1)] show ?case by blast
qed

lemma initial_slots_inv: "slots_inv w (initial w opts)"
  by (simp add: slots_inv_def initial_def holders_def guarded_def holds_slot_def list_all_length)

lemma fire_Task_frame:
  assumes "fire w s (Task i) = Some s'"
  shows "st_opts s' = st_opts s \<and> st_main s' = st_main s \<and>
         (\<forall>j. j \<noteq> i \<longrightarrow> st_tasks s' ! j = st_tasks s ! j)"
  using assms by (cases rule: fire_Task_cases) simp_all

lemma fire_opts: "fire w s t = Some s' \<Longrightarrow> st_opts s' = st_opts s"
proof (cases t)
  case Main
  assume "fire w s t = Some s'"
  with Main have "fire w s Main = Some s'" by simp
  then show ?thesis by (cases rule: fire_Main_cases) simp_all
next
  case (Task i)
  assume "fire w s t = Some s'"
  with Task have "fire w s (Task i) = Some s'" by simp
  then show ?thesis by (simp add: fire_Task_frame)
qed

lemma exec_opts: "exec w s sched = Some s' \<Longrightarrow> st_opts s' = st_opts s"
proof (induction sched arbitrary: s)
  case Nil
  then show ?case by simp
next
  case (Cons t sched)
  from Cons.prems obtain mid where "fire w s t = Some mid" "exec w mid sched = Some s'"
    by (auto split: option.splits)
  with Cons.IH fire_opts show ?case by fastforce
qed










text \<open>
  Claim C2. In every state an interleaved run reaches, the number of tasks that hold a
  slot (that have acquired and not yet released) is at most the initial count of the
  semaphore, \<^verbatim>\<open>std::thread::hardware_concurrency()\<close>. A step of a task changes nothing of
  the state but the counter of the semaphore and what that task itself has still to do:
  the \<open>Options\<close>, the main thread and every other task are as before.
\<close>

theorem slots_bounded:
  "(exec w (initial w opts) sched = Some s \<longrightarrow> holders s \<le> hardware_concurrency w) \<and>
   (fire w s (Task i) = Some s' \<longrightarrow>
      st_opts s' = st_opts s \<and> st_main s' = st_main s \<and>
      (\<forall>j. j \<noteq> i \<longrightarrow> st_tasks s' ! j = st_tasks s ! j))"
proof -
  have "holders s \<le> hardware_concurrency w" if "exec w (initial w opts) sched = Some s"
  proof -
    from that have "slots_inv w s"
      by (rule exec_slots_inv[OF initial_slots_inv])
    then show ?thesis
      by (simp add: slots_inv_def)
  qed
  moreover have "st_opts s' = st_opts s \<and> st_main s' = st_main s \<and>
      (\<forall>j. j \<noteq> i \<longrightarrow> st_tasks s' ! j = st_tasks s ! j)" if "fire w s (Task i) = Some s'"
    using that by (rule fire_Task_frame)
  ultimately show ?thesis by blast
qed

theorem slots_bounded_witness:
  "(case exec example_world (initial example_world example_options)
           [Main, Main, Main, Main, Task 0, Task 1] of
      None \<Rightarrow> False
    | Some s \<Rightarrow>
        holders s = 2 \<and> holders s \<le> hardware_concurrency example_world \<and>
        (case fire example_world s (Task 0) of
           None \<Rightarrow> False
         | Some s' \<Rightarrow> st_opts s' = st_opts s \<and> st_main s' = st_main s \<and>
                     st_tasks s' ! 1 = st_tasks s ! 1))"
proof -
  have "(case exec example_world (initial example_world example_options)
           [Main, Main, Main, Main, Task 0, Task 1] of
      None \<Rightarrow> False
    | Some s \<Rightarrow> holders s = 2 \<and> fire example_world s (Task 0) \<noteq> None)"
    by code_simp
  then obtain s s' where run: "exec example_world (initial example_world example_options)
           [Main, Main, Main, Main, Task 0, Task 1] = Some s"
    and two: "holders s = 2" and step: "fire example_world s (Task 0) = Some s'"
    by (auto split: option.splits)
  from slots_bounded[of example_world example_options "[Main, Main, Main, Main, Task 0, Task 1]"
      s 0 s'] run step
  have "holders s \<le> hardware_concurrency example_world"
    and "st_opts s' = st_opts s" and "st_main s' = st_main s"
    and "st_tasks s' ! 1 = st_tasks s ! 1"
    by simp_all
  with run two step show ?thesis by simp
qed

text \<open>
  Claim C4. No step of any thread changes the \<open>Options\<close>: in every state an interleaved
  run reaches they are the ones \<^verbatim>\<open>run\<close> was called with.
\<close>

theorem options_unchanged:
  "(fire w s t = Some s' \<longrightarrow> st_opts s' = st_opts s) \<and>
   (exec w (initial w opts) sched = Some s \<longrightarrow> st_opts s = opts)"
proof (intro conjI impI)
  assume "fire w s t = Some s'"
  then show "st_opts s' = st_opts s" by (rule fire_opts)
next
  assume "exec w (initial w opts) sched = Some s"
  then have "st_opts s = st_opts (initial w opts)" by (rule exec_opts)
  then show "st_opts s = opts" by (simp add: initial_def)
qed

theorem options_unchanged_witness:
  "(case exec example_world (initial example_world example_options)
           [Main, Main, Main, Main, Task 0, Task 1, Task 0, Task 0] of
      None \<Rightarrow> False
    | Some s \<Rightarrow>
        st_opts s = example_options \<and>
        (case fire example_world s (Task 0) of
           None \<Rightarrow> False
         | Some s' \<Rightarrow> st_opts s' = st_opts s))"
proof -
  have "(case exec example_world (initial example_world example_options)
           [Main, Main, Main, Main, Task 0, Task 1, Task 0, Task 0] of
      None \<Rightarrow> False
    | Some s \<Rightarrow> fire example_world s (Task 0) \<noteq> None)"
    by code_simp
  then obtain s s' where run: "exec example_world (initial example_world example_options)
           [Main, Main, Main, Main, Task 0, Task 1, Task 0, Task 0] = Some s"
    and step: "fire example_world s (Task 0) = Some s'"
    by (auto split: option.splits)
  from options_unchanged[of example_world s "Task 0" s' example_options
      "[Main, Main, Main, Main, Task 0, Task 1, Task 0, Task 0]"] run step
  have "st_opts s' = st_opts s" and "st_opts s = example_options"
    by simp_all
  with run step show ?thesis by simp
qed






text \<open>
  Claim C9 at an image that cannot be read, in the default mode. The dlib task does not
  test whether the image was loaded: it prints nothing and converts the empty image,
  which OpenCV answers with an exception; the task ends by it having acquired and
  released its slot, \<^verbatim>\<open>future.get()\<close> rethrows it in \<^verbatim>\<open>run\<close>, and \<^verbatim>\<open>main\<close> prints it as an
  \<^verbatim>\<open>error:\<close> line, which is all the program writes to the error stream. No file is written
  for the image; the image before it is processed. The OpenCV task of the same image
  prints the message that the image could not be read, and \<^verbatim>\<open>run\<close> ends normally.
\<close>

theorem dlib_task_unreadable_image:
  "mode example_options = DLIB \<and>
   mat_empty (imread example_world (images example_options ! 1)) \<and>
   dlib_task example_world example_options 1 =
     ([Acquire, Release], Some (Cv_exception CvtColor_of_empty)) \<and>
   thrown (run example_world example_options) = Some (Cv_exception CvtColor_of_empty) \<and>
   stderr_messages
     (main_thread (main ref_clib example_world [''a.jpg'', ''missing.jpg'', ''-o'', ''out''])) =
     [Msg_error (Cv_exception CvtColor_of_empty)] \<and>
   concat (map stderr_messages
     (task_threads (main ref_clib example_world [''a.jpg'', ''missing.jpg'', ''-o'', ''out'']))) =
     [] \<and>
   map (map fst \<circ> imwrites)
     (task_threads (main ref_clib example_world [''a.jpg'', ''missing.jpg'', ''-o'', ''out''])) =
     [[''out/face000-000.jpg''], []] \<and>
   opencv_task example_world example_options ''cascade.xml'' 1 =
     ([Acquire, Stderr (Msg_failed_to_read_image ''missing.jpg''), Release], None) \<and>
   thrown (run example_world (example_options\<lparr>mode := OPENCV\<rparr>)) = None"
  by code_simp

end
